theory Spec2Isabelle
  imports Main "HOL-Library.AList"
begin

section \<open>Python values, exceptions and string primitives\<close>

text \<open>
  The module \<^verbatim>\<open>chatmaild/doveauth.py\<close> is embedded function by function. Python strings
  are \<open>string\<close> (lists of characters), Python exceptions are values of \<open>error\<close> returned
  on the left of a sum, and a \<^verbatim>\<open>dict\<close> with string keys and values is an association list
  in insertion order.
\<close>

datatype error = IndexError | ValueError

type_synonym pydict = "(string \<times> string) list"

text \<open>
  The values that the variable \<^verbatim>\<open>res\<close> of \<^verbatim>\<open>handle_lookup\<close> takes: the initial empty
  string, a dictionary, or \<^verbatim>\<open>None\<close>. \<open>truthy\<close> is Python's truth test on them.
\<close>

datatype pyval = Str string | Dict pydict | PyNone

fun truthy :: "pyval \<Rightarrow> bool" where
  "truthy (Str s) = (s \<noteq> [])"
| "truthy (Dict d) = (d \<noteq> [])"
| "truthy PyNone = False"

abbreviation backslash :: char where "backslash \<equiv> CHR 0x5C"
abbreviation dquote :: char where "dquote \<equiv> CHR 0x22"
abbreviation tab :: char where "tab \<equiv> CHR 0x09"
abbreviation newline :: char where "newline \<equiv> CHR 0x0A"

text \<open>\<^verbatim>\<open>xs[i]\<close> for a non-negative index: IndexError out of range.\<close>

definition nth_py :: "'a list \<Rightarrow> nat \<Rightarrow> error + 'a" where
  "nth_py xs i = (if i < length xs then Inr (xs ! i) else Inl IndexError)"

text \<open>\<^verbatim>\<open>d.update(e)\<close>: a key of \<open>d\<close> keeps its position, a new key is appended.\<close>

definition dict_update :: "pydict \<Rightarrow> pydict \<Rightarrow> pydict" where
  "dict_update d e = fold (\<lambda>kv. AList.update (fst kv) (snd kv)) e d"

text \<open>
  \<^verbatim>\<open>s.split(sep)\<close> for a one-character separator: every occurrence of the separator
  ends a part, and the scan always delivers the last (possibly empty) part.
\<close>

fun split_all :: "char \<Rightarrow> string \<Rightarrow> string \<Rightarrow> string list" where
  "split_all sep out [] = [out]"
| "split_all sep out (c # cs) =
     (if c = sep then out # split_all sep [] cs else split_all sep (out @ [c]) cs)"

definition str_split :: "char \<Rightarrow> string \<Rightarrow> string list" where
  "str_split sep s = split_all sep [] s"

text \<open>\<^verbatim>\<open>s.split(sep, maxsplit)\<close>: at most \<open>maxsplit\<close> splits, the rest is the last part.\<close>

fun split_upto :: "char \<Rightarrow> nat \<Rightarrow> string \<Rightarrow> string \<Rightarrow> string list" where
  "split_upto sep n out [] = [out]"
| "split_upto sep 0 out (c # cs) = [out @ c # cs]"
| "split_upto sep (Suc n) out (c # cs) =
     (if c = sep then out # split_upto sep n [] cs else split_upto sep (Suc n) (out @ [c]) cs)"

definition str_split_max :: "char \<Rightarrow> nat \<Rightarrow> string \<Rightarrow> string list" where
  "str_split_max sep n s = split_upto sep n [] s"

text \<open>\<^verbatim>\<open>sep.join(xs)\<close>.\<close>

fun str_join :: "string \<Rightarrow> string list \<Rightarrow> string" where
  "str_join sep [] = []"
| "str_join sep [x] = x"
| "str_join sep (x # y # ys) = x @ sep @ str_join sep (y # ys)"

text \<open>\<^verbatim>\<open>s.endswith(suffix)\<close>.\<close>

definition endswith :: "string \<Rightarrow> string \<Rightarrow> bool" where
  "endswith s suf = (length suf \<le> length s \<and> drop (length s - length suf) s = suf)"


section \<open>The escaped-field tokenizer\<close>

text \<open>
  \<^verbatim>\<open>split_and_unescape\<close> is a generator driven by an index \<open>i\<close> into \<open>s\<close>. The model
  carries the index, the current segment \<open>out\<close> and the segments yielded so far. The caller
  consumes the generator with \<^verbatim>\<open>list(...)\<close>, so the result is the list of all segments,
  or the IndexError that \<^verbatim>\<open>s[i]\<close> raises when a backslash is the last character.
\<close>

function split_and_unescape_loop ::
  "string \<Rightarrow> nat \<Rightarrow> string \<Rightarrow> string list \<Rightarrow> error + string list" where
  "split_and_unescape_loop s i out yielded =
     (if i < length s then
        (if s ! i = backslash then
           (if Suc i < length s
            then split_and_unescape_loop s (Suc (Suc i)) (out @ [s ! Suc i]) yielded
            else Inl IndexError)
         else if s ! i = dquote then
           split_and_unescape_loop s (Suc i) [] (yielded @ [out])
         else
           split_and_unescape_loop s (Suc i) (out @ [s ! i]) yielded)
      else Inr (yielded @ [out]))"
  by pat_completeness auto
termination
  by (relation "measure (\<lambda>(s, i, out, yielded). length s - i)") auto

declare split_and_unescape_loop.simps [simp del]

definition split_and_unescape :: "string \<Rightarrow> error + string list" where
  "split_and_unescape s = split_and_unescape_loop s 0 [] []"

text \<open>
  The sender's side of the wire format, following the specification's words: each field
  has its backslashes and double quotes preceded by a backslash, and the escaped fields
  are joined with the double quote.
\<close>

definition escape_field :: "string \<Rightarrow> string" where
  "escape_field f =
     concat (map (\<lambda>c. if c = backslash \<or> c = dquote then [backslash, c] else [c]) f)"

definition escape_fields :: "string list \<Rightarrow> string" where
  "escape_fields fields = str_join [dquote] (map escape_field fields)"


section \<open>Configuration and the account store\<close>

text \<open>
  The class \<^verbatim>\<open>Config\<close> lives in a module that is not part of the verified file. Its
  attributes are the fields of the record. Its method \<^verbatim>\<open>get_user_dict(addr, enc_password)\<close>
  (the attributes derived from the address: home, owner identifiers, and the password
  when one is passed) is a field too, so every theorem holds for any such function.
\<close>

record config =
  mail_domain :: string
  password_min_length :: int
  username_min_length :: int
  username_max_length :: int
  get_user_dict :: "string \<Rightarrow> string option \<Rightarrow> pydict"

text \<open>
  The file system as the module sees it: whether the marker \<^verbatim>\<open>/etc/chatmail-nocreate\<close>
  exists, and the entries of \<^verbatim>\<open>config.mailboxes_dir\<close> in the order \<^verbatim>\<open>iterdir()\<close> lists
  them, each with the text of its \<^verbatim>\<open>password\<close> file when that file exists.
\<close>

record fsys =
  nocreate_exists :: bool
  mailboxes :: "(string \<times> string option) list"

text \<open>
  Modelled from the spec: \<^verbatim>\<open>Config.get_user_maildir\<close> is missing from the sources; the
  specification has the store map an address deterministically to its directory, which
  holds the password file. \<open>read_password\<close> is
  \<^verbatim>\<open>get_user_maildir(user).joinpath("password")\<close> followed by \<^verbatim>\<open>exists()\<close> and
  \<^verbatim>\<open>read_text()\<close>: the directory of an address is the entry of that name.
\<close>

definition read_password :: "fsys \<Rightarrow> string \<Rightarrow> string option" where
  "read_password fs user =
     (case map_of (mailboxes fs) user of Some (Some text) \<Rightarrow> Some text | _ \<Rightarrow> None)"

text \<open>
  Modelled from the spec: \<^verbatim>\<open>Config.set_user_password\<close> is missing from the sources; the
  specification's \<^verbatim>\<open>createAccount\<close> writes the password hash to the derived path. A
  directory that did not exist is created and listed last.
\<close>

definition set_user_password :: "fsys \<Rightarrow> string \<Rightarrow> string \<Rightarrow> fsys" where
  "set_user_password fs user enc_password =
     fs\<lparr>mailboxes := AList.update user (Some enc_password) (mailboxes fs)\<rparr>"


section \<open>The account-creation policy\<close>

text \<open>The warnings that \<^verbatim>\<open>is_allowed_to_create\<close> logs, one constructor per call site.\<close>

datatype warning =
    Blocked_nocreate
  | Password_too_short int
  | Not_an_address string
  | Localpart_length string int int

text \<open>
  \<^verbatim>\<open>is_allowed_to_create\<close> returns its verdict; the second component is what it logged.
  The checks stand in the order of the source, each returning at once when it fails.
\<close>

definition is_allowed_to_create ::
  "fsys \<Rightarrow> config \<Rightarrow> string \<Rightarrow> string \<Rightarrow> bool \<times> warning list" where
  "is_allowed_to_create fs cfg user cleartext_password =
     (if nocreate_exists fs then (False, [Blocked_nocreate])
      else if int (length cleartext_password) < password_min_length cfg
        then (False, [Password_too_short (password_min_length cfg)])
      else (case str_split (CHR ''@'') user of
          [localpart, domain] \<Rightarrow>
            if localpart = ''echo'' then (False, [])
            else if int (length localpart) > username_max_length cfg
                  \<or> int (length localpart) < username_min_length cfg
              then (False, [Localpart_length localpart
                              (username_min_length cfg) (username_max_length cfg)])
            else (True, [])
        | _ \<Rightarrow> (False, [Not_an_address user])))"


section \<open>Lookup and provisioning\<close>

text \<open>
  \<^verbatim>\<open>crypt.crypt(password, crypt.METHOD_SHA512)\<close> draws a fresh salt on every call, so the
  hashing primitive is a parameter \<open>crypt\<close> of the functions that reach it: a theorem
  that holds for every \<open>crypt\<close> holds for every salt. The library function hands the
  password to the C routine as a NUL-terminated string and raises ValueError when the
  password holds a NUL character; \<open>crypt\<close> gives the hash of the other passwords.
\<close>

abbreviation nul :: char where "nul \<equiv> CHR 0x00"

definition encrypt_password :: "(string \<Rightarrow> string) \<Rightarrow> string \<Rightarrow> error + string" where
  "encrypt_password crypt password =
     (if nul \<in> set password then Inl ValueError
      else Inr (''{SHA512-CRYPT}'' @ crypt password))"

definition lookup_userdb :: "config \<Rightarrow> fsys \<Rightarrow> string \<Rightarrow> pydict" where
  "lookup_userdb cfg fs user =
     (case read_password fs user of
        Some text \<Rightarrow>
          dict_update [(''addr'', user), (''password'', text)] (get_user_dict cfg user None)
      | None \<Rightarrow> [])"

text \<open>
  \<^verbatim>\<open>lookup_passdb\<close> returns a dictionary or \<^verbatim>\<open>None\<close>, and the file system it leaves,
  or the exception of \<^verbatim>\<open>encrypt_password\<close>, raised before anything is written.
  The warnings of the policy go to the log and are dropped here.
\<close>

definition lookup_passdb ::
  "config \<Rightarrow> (string \<Rightarrow> string) \<Rightarrow> fsys \<Rightarrow> string \<Rightarrow> string
     \<Rightarrow> error + (pyval \<times> fsys)" where
  "lookup_passdb cfg crypt fs user cleartext_password =
     (let userdata = lookup_userdb cfg fs user in
      if userdata \<noteq> [] then Inr (Dict userdata, fs)
      else if \<not> fst (is_allowed_to_create fs cfg user cleartext_password)
        then Inr (PyNone, fs)
      else
        (case encrypt_password crypt cleartext_password of
           Inl e \<Rightarrow> Inl e
         | Inr enc_password \<Rightarrow>
             (let fs' = set_user_password fs user enc_password
              in Inr (Dict (get_user_dict cfg user (Some enc_password)), fs'))))"


section \<open>The protocol dispatcher\<close>

text \<open>
  \<^verbatim>\<open>json.dumps\<close> belongs to the standard library and is a parameter of \<open>handle_lookup\<close>.
  The reply is \<^verbatim>\<open>f"{reply_command}{json_res}\n"\<close>, with the serialisation only of a
  truthy result.
\<close>

definition reply_line :: "(pyval \<Rightarrow> string) \<Rightarrow> string \<Rightarrow> pyval \<Rightarrow> string" where
  "reply_line json_dumps reply_command res =
     reply_command @ (if truthy res then json_dumps res else []) @ [newline]"

text \<open>
  \<open>handle_lookup\<close> receives the tab-separated fields of the line after its command
  letter. Every statement of the source that can raise is a \<open>case\<close> here: \<^verbatim>\<open>parts[0]\<close>,
  the unpacking of \<^verbatim>\<open>keyname.split("/", 2)\<close> into three names (ValueError unless there
  are three parts), the consumption of the tokenizer, \<^verbatim>\<open>args[0]\<close>, \<^verbatim>\<open>args[1]\<close> and
  the call of \<^verbatim>\<open>lookup_passdb\<close>.
  The source has no \<^verbatim>\<open>try\<close>: an exception leaves the method.
\<close>

definition handle_lookup ::
  "config \<Rightarrow> (string \<Rightarrow> string) \<Rightarrow> (pyval \<Rightarrow> string) \<Rightarrow> fsys \<Rightarrow> string list
     \<Rightarrow> error + (string \<times> fsys)" where
  "handle_lookup cfg crypt json_dumps fs parts =
     (case nth_py parts 0 of Inl e \<Rightarrow> Inl e | Inr keyname \<Rightarrow>
      (case str_split_max (CHR ''/'') 2 keyname of
         [namespace, type, blob] \<Rightarrow>
           (case split_and_unescape blob of Inl e \<Rightarrow> Inl e | Inr args \<Rightarrow>
            if namespace = ''shared'' then
              if type = ''userdb'' then
                (case nth_py args 0 of Inl e \<Rightarrow> Inl e | Inr user \<Rightarrow>
                 (let res = (if endswith user (''@'' @ mail_domain cfg)
                             then Dict (lookup_userdb cfg fs user) else Str [])
                  in Inr (reply_line json_dumps (if truthy res then ''O'' else ''N'') res, fs)))
              else if type = ''passdb'' then
                (case nth_py args 1 of Inl e \<Rightarrow> Inl e | Inr user \<Rightarrow>
                 if endswith user (''@'' @ mail_domain cfg) then
                   (case nth_py args 0 of Inl e \<Rightarrow> Inl e | Inr cleartext_password \<Rightarrow>
                    (case lookup_passdb cfg crypt fs user cleartext_password of
                       Inl e \<Rightarrow> Inl e
                     | Inr (res, fs') \<Rightarrow>
                         Inr (reply_line json_dumps (if truthy res then ''O'' else ''N'') res,
                              fs')))
                 else Inr (reply_line json_dumps ''N'' (Str []), fs))
              else Inr (reply_line json_dumps ''F'' (Str []), fs)
            else Inr (reply_line json_dumps ''F'' (Str []), fs))
       | _ \<Rightarrow> Inl ValueError))"

text \<open>\<^verbatim>\<open>iter_userdb\<close>: the names of the entries of the mailbox directory that contain an at sign.\<close>

definition iter_userdb :: "fsys \<Rightarrow> string list" where
  "iter_userdb fs = filter (\<lambda>name. CHR ''@'' \<in> set name) (map fst (mailboxes fs))"

text \<open>
  \<open>handle_iterate\<close> returns the reply, or \<^verbatim>\<open>None\<close> (no reply) when the third field is not
  the prefix of the shared user database.
\<close>

definition found_line :: "string \<Rightarrow> string" where
  "found_line user = ''Oshared/userdb/'' @ user @ [tab, newline]"

definition handle_iterate :: "fsys \<Rightarrow> string list \<Rightarrow> error + string option" where
  "handle_iterate fs parts =
     (case nth_py parts 2 of Inl e \<Rightarrow> Inl e | Inr prefix \<Rightarrow>
      if prefix = ''shared/userdb/''
      then Inr (Some (concat (map found_line (iter_userdb fs)) @ [newline]))
      else Inr None)"


section \<open>Concrete values for evaluation\<close>

text \<open>
  A configuration as the tests of the repository set it up (domain \<^verbatim>\<open>chat.example.org\<close>,
  user names of 6 to 10 characters, passwords of at least 9), with a \<^verbatim>\<open>get_user_dict\<close>
  that returns the keys the tests read: \<^verbatim>\<open>addr\<close>, \<^verbatim>\<open>home\<close>, \<^verbatim>\<open>uid\<close>, \<^verbatim>\<open>gid\<close> and the
  password when one is passed.
\<close>

definition example_user_dict :: "string \<Rightarrow> string option \<Rightarrow> pydict" where
  "example_user_dict addr enc_password =
     [(''addr'', addr), (''home'', ''/home/vmail/mail/chat.example.org/'' @ addr),
      (''uid'', ''vmail''), (''gid'', ''vmail'')]
     @ (case enc_password of None \<Rightarrow> [] | Some p \<Rightarrow> [(''password'', p)])"

definition example_config :: config where
  "example_config =
     \<lparr>mail_domain = ''chat.example.org'', password_min_length = 9,
      username_min_length = 6, username_max_length = 10,
      get_user_dict = example_user_dict\<rparr>"

text \<open>A stand-in for the hashing primitive with a fixed salt.\<close>

definition example_crypt :: "string \<Rightarrow> string" where
  "example_crypt password = ''$6$salt$'' @ rev password"

text \<open>
  \<^verbatim>\<open>json.dumps\<close> with its default arguments on the values that occur: a string is
  quoted, with the quote, the backslash and the characters outside the printable ASCII
  range escaped; a dictionary is written in insertion order with the separators
  \<^verbatim>\<open>", "\<close> and \<^verbatim>\<open>": "\<close>.
\<close>

definition hex_digit :: "nat \<Rightarrow> char" where
  "hex_digit n = ''0123456789abcdef'' ! (n mod 16)"

definition json_escape_char :: "char \<Rightarrow> string" where
  "json_escape_char c =
     (if c = dquote then [backslash, dquote]
      else if c = backslash then [backslash, backslash]
      else if c = newline then [backslash, CHR ''n'']
      else if c = CHR 0x0D then [backslash, CHR ''r'']
      else if c = tab then [backslash, CHR ''t'']
      else if c = CHR 0x08 then [backslash, CHR ''b'']
      else if c = CHR 0x0C then [backslash, CHR ''f'']
      else if 32 \<le> (of_char c :: nat) \<and> (of_char c :: nat) \<le> 126 then [c]
      else [backslash, CHR ''u'', CHR ''0'', CHR ''0'',
            hex_digit ((of_char c :: nat) div 16), hex_digit (of_char c :: nat)])"

definition json_string :: "string \<Rightarrow> string" where
  "json_string s = [dquote] @ concat (map json_escape_char s) @ [dquote]"

fun json_dumps :: "pyval \<Rightarrow> string" where
  "json_dumps (Str s) = json_string s"
| "json_dumps (Dict d) =
     ''{'' @ str_join '', '' (map (\<lambda>kv. json_string (fst kv) @ '': '' @ json_string (snd kv)) d)
     @ ''}''"
| "json_dumps PyNone = ''null''"

text \<open>
  Three file systems: an empty mailbox directory, one with an established account, and
  one whose directory \<^verbatim>\<open>stray@chat.example.org\<close> holds no password file.
\<close>

definition empty_fs :: fsys where
  "empty_fs = \<lparr>nocreate_exists = False, mailboxes = []\<rparr>"

definition one_account_fs :: fsys where
  "one_account_fs =
     \<lparr>nocreate_exists = False,
      mailboxes = [(''asdf12345@chat.example.org'', Some ''{SHA512-CRYPT}$6$salt$euaf3rm9q'')]\<rparr>"

definition stray_dir_fs :: fsys where
  "stray_dir_fs =
     \<lparr>nocreate_exists = False, mailboxes = [(''stray@chat.example.org'', None)]\<rparr>"


section \<open>Auxiliary definitions for the proofs\<close>

text \<open>The tokenizer's loop on the rest of the input instead of an index.\<close>

fun unescape_from :: "string \<Rightarrow> string list \<Rightarrow> string \<Rightarrow> error + string list" where
  "unescape_from out ys [] = Inr (ys @ [out])"
| "unescape_from out ys (c # cs) =
     (if c = backslash then
        (case cs of [] \<Rightarrow> Inl IndexError | d # ds \<Rightarrow> unescape_from (out @ [d]) ys ds)
      else if c = dquote then unescape_from [] (ys @ [out]) cs
      else unescape_from (out @ [c]) ys cs)"

text \<open>The number of backslashes that end a string.\<close>

definition trailing_backslashes :: "string \<Rightarrow> nat" where
  "trailing_backslashes s = length (takeWhile (\<lambda>c. c = backslash) (rev s))"

text \<open>
  \<^verbatim>\<open>lookup_passdb\<close> in two halves. The first half is the statements up to the policy
  check: it reads the store and either returns (the stored record, or \<^verbatim>\<open>None\<close>) or goes
  on to create the account. The second half is the statements after the check: it
  hashes the password of its own call, writes it and returns the record built from that
  hash. \<open>lookup_passdb_check_finish\<close> below proves that the function is the first half
  followed by the second on the same store.
\<close>

datatype checked = Return pyval | Create

definition lookup_passdb_check :: "config \<Rightarrow> fsys \<Rightarrow> string \<Rightarrow> string \<Rightarrow> checked" where
  "lookup_passdb_check cfg fs user cleartext_password =
     (let userdata = lookup_userdb cfg fs user in
      if userdata \<noteq> [] then Return (Dict userdata)
      else if \<not> fst (is_allowed_to_create fs cfg user cleartext_password) then Return PyNone
      else Create)"

definition lookup_passdb_finish ::
  "config \<Rightarrow> (string \<Rightarrow> string) \<Rightarrow> fsys \<Rightarrow> string \<Rightarrow> string \<Rightarrow> checked
     \<Rightarrow> error + (pyval \<times> fsys)" where
  "lookup_passdb_finish cfg crypt fs user cleartext_password c =
     (case c of
        Return r \<Rightarrow> Inr (r, fs)
      | Create \<Rightarrow>
          (case encrypt_password crypt cleartext_password of
             Inl e \<Rightarrow> Inl e
           | Inr enc_password \<Rightarrow>
               Inr (Dict (get_user_dict cfg user (Some enc_password)),
                    set_user_password fs user enc_password)))"



text \<open>
  A store in which directory entries have distinct names, every entry whose name
  contains an at sign holds a password file, and every address with a password file
  contains an at sign.
\<close>

definition accounts_only :: "fsys \<Rightarrow> bool" where
  "accounts_only fs =
     (distinct (map fst (mailboxes fs))
      \<and> list_all (\<lambda>e. (CHR ''@'' \<in> set (fst e)) = (snd e \<noteq> None)) (mailboxes fs))"


section \<open>The tokenizer: index loop and scan of the rest\<close>

lemma loop_unescape_from:
  "i \<le> length s \<Longrightarrow> split_and_unescape_loop s i out ys = unescape_from out ys (drop i s)"
proof (induction s i out ys rule: split_and_unescape_loop.induct)
  case (1 s i out ys)
  show ?case
  proof (cases "i < length s")
    case False
    with 1(4) show ?thesis by (subst split_and_unescape_loop.simps) simp
  next
    case True
    then have d: "drop i s = s ! i # drop (Suc i) s" by (simp add: Cons_nth_drop_Suc)
    show ?thesis
    proof (cases "s ! i = backslash")
      case bs: True
      show ?thesis
      proof (cases "Suc i < length s")
        case True
        then have d2: "drop (Suc i) s = s ! Suc i # drop (Suc (Suc i)) s"
          by (simp add: Cons_nth_drop_Suc)
        from True bs \<open>i < length s\<close> 1(1) show ?thesis
          by (subst split_and_unescape_loop.simps) (simp add: d d2)
      next
        case False
        with \<open>i < length s\<close> have "drop (Suc i) s = []" by simp
        with False bs \<open>i < length s\<close> show ?thesis
          by (subst split_and_unescape_loop.simps) (simp add: d)
      qed
    next
      case nbs: False
      show ?thesis
      proof (cases "s ! i = dquote")
        case True
        with nbs \<open>i < length s\<close> 1(2) show ?thesis
          by (subst split_and_unescape_loop.simps) (simp add: d)
      next
        case False
        with nbs \<open>i < length s\<close> 1(3) show ?thesis
          by (subst split_and_unescape_loop.simps) (simp add: d)
      qed
    qed
  qed
qed

lemma split_and_unescape_eq: "split_and_unescape s = unescape_from [] [] s"
  by (simp add: split_and_unescape_def loop_unescape_from)

lemma unescape_from_escape_field:
  "unescape_from out ys (escape_field f @ rest) = unescape_from (out @ f) ys rest"
  by (induction f arbitrary: out) (simp_all add: escape_field_def)

lemma escape_fields_Cons2:
  "escape_fields (f # g # fs) = escape_field f @ dquote # escape_fields (g # fs)"
  by (simp add: escape_fields_def)

lemma unescape_from_escape_fields:
  "unescape_from [] ys (escape_fields (f # fs)) = Inr (ys @ f # fs)"
proof (induction fs arbitrary: f ys)
  case Nil
  have "unescape_from [] ys (escape_field f @ []) = unescape_from ([] @ f) ys []"
    by (rule unescape_from_escape_field)
  then show ?case by (simp add: escape_fields_def)
next
  case (Cons g fs)
  have "unescape_from [] ys (escape_field f @ dquote # escape_fields (g # fs))
        = unescape_from ([] @ f) ys (dquote # escape_fields (g # fs))"
    by (rule unescape_from_escape_field)
  also have "\<dots> = unescape_from [] (ys @ [f]) (escape_fields (g # fs))" by simp
  also have "\<dots> = Inr ((ys @ [f]) @ g # fs)" by (rule Cons.IH)
  finally show ?case by (simp add: escape_fields_Cons2)
qed


section \<open>Plain splitting\<close>

lemma unescape_from_plain:
  "backslash \<notin> set s \<Longrightarrow> unescape_from out ys s = Inr (ys @ split_all dquote out s)"
  by (induction s arbitrary: out ys) auto

lemma length_split_all: "length (split_all sep out s) = Suc (count_list s sep)"
  by (induction s arbitrary: out) auto

lemma split_all_nonempty: "split_all sep out s \<noteq> []"
  by (induction s arbitrary: out) auto

lemma str_join_Cons: "xs \<noteq> [] \<Longrightarrow> str_join sep (x # xs) = x @ sep @ str_join sep xs"
  by (cases xs) simp_all

lemma join_split_all: "str_join [sep] (split_all sep out s) = out @ s"
proof (induction s arbitrary: out)
  case Nil
  show ?case by simp
next
  case (Cons c cs)
  show ?case
  proof (cases "c = sep")
    case True
    have "str_join [sep] (out # split_all sep [] cs) = out @ [sep] @ str_join [sep] (split_all sep [] cs)"
      by (rule str_join_Cons) (rule split_all_nonempty)
    with True Cons.IH [of "[]"] show ?thesis by simp
  next
    case False
    with Cons.IH [of "out @ [c]"] show ?thesis by simp
  qed
qed

lemma split_all_free:
  "sep \<notin> set out \<Longrightarrow> \<forall>seg \<in> set (split_all sep out s). sep \<notin> set seg"
proof (induction s arbitrary: out)
  case Nil
  then show ?case by simp
next
  case (Cons c cs)
  show ?case
  proof (cases "c = sep")
    case True
    with Cons.IH [of "[]"] Cons.prems show ?thesis by simp
  next
    case False
    with Cons.IH [of "out @ [c]"] Cons.prems show ?thesis by simp
  qed
qed

lemma split_all_no_sep: "sep \<notin> set s \<Longrightarrow> split_all sep out s = [out @ s]"
  by (induction s arbitrary: out) auto

lemma split_all_append:
  "sep \<notin> set a \<Longrightarrow> split_all sep out (a @ sep # b) = (out @ a) # split_all sep [] b"
  by (induction a arbitrary: out) auto

lemma str_split_two_iff:
  "str_split sep s = [a, b] \<longleftrightarrow> s = a @ sep # b \<and> sep \<notin> set a \<and> sep \<notin> set b"
proof
  assume h: "str_split sep s = [a, b]"
  have "str_join [sep] (str_split sep s) = s" by (simp add: str_split_def join_split_all)
  then have "str_join [sep] [a, b] = s" by (simp only: h)
  then have "s = a @ sep # b" by auto
  moreover have "sep \<notin> set a" "sep \<notin> set b"
  proof -
    have "\<forall>seg \<in> set (split_all sep [] s). sep \<notin> set seg" by (rule split_all_free) simp
    then have "\<forall>seg \<in> set [a, b]. sep \<notin> set seg" using h by (simp only: str_split_def)
    then show "sep \<notin> set a" "sep \<notin> set b" by simp_all
  qed
  ultimately show "s = a @ sep # b \<and> sep \<notin> set a \<and> sep \<notin> set b" by simp
next
  assume "s = a @ sep # b \<and> sep \<notin> set a \<and> sep \<notin> set b"
  then show "str_split sep s = [a, b]"
    by (simp add: str_split_def split_all_append split_all_no_sep)
qed

section \<open>When the tokenizer raises\<close>

lemma trailing_backslashes_snoc:
  "trailing_backslashes (s @ [c]) = (if c = backslash then Suc (trailing_backslashes s) else 0)"
  by (simp add: trailing_backslashes_def)

lemma unescape_from_snoc_fails:
  "unescape_from out ys (p @ [c]) = Inl IndexError
     \<longleftrightarrow> unescape_from out ys p \<noteq> Inl IndexError \<and> c = backslash"
proof (induction out ys p rule: unescape_from.induct)
  case (1 out ys)
  show ?case by simp
next
  case (2 out ys x cs)
  show ?case
  proof (cases cs)
    case Nil
    then show ?thesis by simp
  next
    case (Cons d ds)
    with 2 show ?thesis by simp
  qed
qed

lemma unescape_from_fails_iff:
  "unescape_from out ys s = Inl IndexError \<longleftrightarrow> odd (trailing_backslashes s)"
proof (induction s rule: rev_induct)
  case Nil
  show ?case by (simp add: trailing_backslashes_def)
next
  case (snoc c s)
  then show ?case
    by (simp only: unescape_from_snoc_fails trailing_backslashes_snoc) simp
qed

lemma unescape_from_no_ValueError: "unescape_from out ys s \<noteq> Inl ValueError"
  by (induction out ys s rule: unescape_from.induct) (simp_all split: list.splits)

lemma unescape_from_error: "unescape_from out ys s = Inl e \<Longrightarrow> e = IndexError"
  using unescape_from_no_ValueError [of out ys s] by (cases e) simp_all


section \<open>Theorems about the tokenizer\<close>

text \<open>
  Claim C6, amended. For every non-empty list of fields, tokenizing the string built by
  escaping the backslashes and double quotes of each field and joining the fields with
  the double quote gives back exactly the fields, in order. (The empty list is joined to
  the empty string, which tokenizes to one empty segment.)
\<close>

theorem tokenize_escape_roundtrip:
  "flds \<noteq> [] \<Longrightarrow> split_and_unescape (escape_fields flds) = Inr flds"
  using unescape_from_escape_fields [of "[]"]
  by (cases flds) (simp_all add: split_and_unescape_eq)

theorem tokenize_escape_roundtrip_witness:
  "[''q9mr'', [backslash, dquote, CHR ''x''], [], ''a@b''] \<noteq> []
   \<and> split_and_unescape (escape_fields [''q9mr'', [backslash, dquote, CHR ''x''], [], ''a@b''])
       = Inr [''q9mr'', [backslash, dquote, CHR ''x''], [], ''a@b'']"
  using tokenize_escape_roundtrip [of "[''q9mr'', [backslash, dquote, CHR ''x''], [], ''a@b'']"]
  by simp

text \<open>
  The claim as stated, for every finite list, fails at the empty list: its escaped form
  is the empty string, and the tokenizer returns one empty segment, not no segment.
\<close>

theorem tokenize_escape_empty_list_counterexample:
  "split_and_unescape (escape_fields []) = Inr [[]]
   \<and> split_and_unescape (escape_fields []) \<noteq> Inr []"
  by (simp add: escape_fields_def split_and_unescape_eq)

text \<open>
  Claim C9. On an input without backslash the tokenizer returns the parts of the plain
  split at the double quote: there is one more part than there are double quotes, no part
  contains a double quote, and the parts joined by double quotes are the input. The empty
  input gives exactly one empty segment.
\<close>

theorem tokenizer_plain_split:
  "backslash \<notin> set s \<Longrightarrow>
     split_and_unescape s = Inr (str_split dquote s)
     \<and> length (str_split dquote s) = Suc (count_list s dquote)
     \<and> str_join [dquote] (str_split dquote s) = s
     \<and> (\<forall>seg \<in> set (str_split dquote s). dquote \<notin> set seg)
     \<and> split_and_unescape [] = Inr [[]]"
proof -
  assume nb: "backslash \<notin> set s"
  have a: "split_and_unescape s = Inr (str_split dquote s)"
    using unescape_from_plain [OF nb, of "[]" "[]"]
    by (simp add: split_and_unescape_eq str_split_def)
  have b: "length (str_split dquote s) = Suc (count_list s dquote)"
    by (simp add: str_split_def length_split_all)
  have c: "str_join [dquote] (str_split dquote s) = s"
    by (simp add: str_split_def join_split_all)
  have d: "\<forall>seg \<in> set (str_split dquote s). dquote \<notin> set seg"
    unfolding str_split_def by (rule split_all_free) simp
  have e: "split_and_unescape [] = Inr [[]]"
    by (simp add: split_and_unescape_eq)
  from a b c d e show ?thesis by (intro conjI)
qed

theorem tokenizer_plain_split_witness:
  "backslash \<notin> set [CHR ''p'', CHR ''w'', dquote, CHR ''a'', CHR ''@'', CHR ''b'', dquote]
   \<and> split_and_unescape [CHR ''p'', CHR ''w'', dquote, CHR ''a'', CHR ''@'', CHR ''b'', dquote]
       = Inr [''pw'', ''a@b'', []]
   \<and> length (str_split dquote [CHR ''p'', CHR ''w'', dquote, CHR ''a'', CHR ''@'', CHR ''b'', dquote])
       = 3"
  using tokenizer_plain_split
    [of "[CHR ''p'', CHR ''w'', dquote, CHR ''a'', CHR ''@'', CHR ''b'', dquote]"]
  by (simp add: str_split_def)

section \<open>The account-creation policy: lemmas\<close>

lemma str_split_length_two:
  "length (str_split sep s) = 2 \<longleftrightarrow> count_list s sep = 1"
  by (simp add: str_split_def length_split_all)

lemma takeWhile_before_sep:
  "sep \<notin> set a \<Longrightarrow> takeWhile (\<lambda>c. c \<noteq> sep) (a @ sep # b) = a"
  by (induction a) auto

lemma str_split_two_localpart:
  assumes "str_split sep s = [a, b]"
  shows "a = takeWhile (\<lambda>c. c \<noteq> sep) s"
proof -
  from assms have "s = a @ sep # b" and "sep \<notin> set a" by (simp_all add: str_split_two_iff)
  then show ?thesis by (simp add: takeWhile_before_sep)
qed

lemma str_split_two_cases:
  "count_list s sep = 1 \<Longrightarrow> \<exists>a b. str_split sep s = [a, b]"
proof -
  assume "count_list s sep = 1"
  then have "length (str_split sep s) = 2" by (simp add: str_split_length_two)
  then show ?thesis by (auto simp add: length_Suc_conv numeral_2_eq_2)
qed

lemma is_allowed_to_create_parts:
  assumes "str_split (CHR ''@'') user = [localpart, domain]"
  shows "is_allowed_to_create fs cfg user pw =
     (if nocreate_exists fs then (False, [Blocked_nocreate])
      else if int (length pw) < password_min_length cfg
        then (False, [Password_too_short (password_min_length cfg)])
      else if localpart = ''echo'' then (False, [])
      else if int (length localpart) > username_max_length cfg
                  \<or> int (length localpart) < username_min_length cfg
        then (False, [Localpart_length localpart
                              (username_min_length cfg) (username_max_length cfg)])
      else (True, []))"
  using assms by (simp add: is_allowed_to_create_def)

lemma is_allowed_to_create_not_two:
  assumes "count_list user (CHR ''@'') \<noteq> 1"
  shows "is_allowed_to_create fs cfg user pw =
     (if nocreate_exists fs then (False, [Blocked_nocreate])
      else if int (length pw) < password_min_length cfg
        then (False, [Password_too_short (password_min_length cfg)])
      else (False, [Not_an_address user]))"
proof -
  from assms have "length (str_split (CHR ''@'') user) \<noteq> 2" by (simp add: str_split_length_two)
  then show ?thesis
    by (auto simp add: is_allowed_to_create_def split: list.splits)
qed

lemma is_allowed_to_create_fst:
  "fst (is_allowed_to_create fs cfg user pw) \<longleftrightarrow>
     \<not> nocreate_exists fs
     \<and> password_min_length cfg \<le> int (length pw)
     \<and> count_list user (CHR ''@'') = 1
     \<and> takeWhile (\<lambda>c. c \<noteq> CHR ''@'') user \<noteq> ''echo''
     \<and> username_min_length cfg \<le> int (length (takeWhile (\<lambda>c. c \<noteq> CHR ''@'') user))
     \<and> int (length (takeWhile (\<lambda>c. c \<noteq> CHR ''@'') user)) \<le> username_max_length cfg"
proof (cases "count_list user (CHR ''@'') = 1")
  case False
  then show ?thesis by (simp add: is_allowed_to_create_not_two)
next
  case True
  then obtain a b where ab: "str_split (CHR ''@'') user = [a, b]"
    using str_split_two_cases by blast
  then have a: "takeWhile (\<lambda>c. c \<noteq> CHR ''@'') user = a"
    using str_split_two_localpart [of "CHR ''@''" user a b] by simp
  show ?thesis
    unfolding a is_allowed_to_create_parts [OF ab] using True by auto
qed

lemma is_allowed_to_create_snd:
  "snd (is_allowed_to_create fs cfg user pw) =
     (if nocreate_exists fs then [Blocked_nocreate]
      else if int (length pw) < password_min_length cfg
        then [Password_too_short (password_min_length cfg)]
      else if count_list user (CHR ''@'') \<noteq> 1 then [Not_an_address user]
      else if takeWhile (\<lambda>c. c \<noteq> CHR ''@'') user = ''echo'' then []
      else if username_max_length cfg < int (length (takeWhile (\<lambda>c. c \<noteq> CHR ''@'') user))
            \<or> int (length (takeWhile (\<lambda>c. c \<noteq> CHR ''@'') user)) < username_min_length cfg
        then [Localpart_length (takeWhile (\<lambda>c. c \<noteq> CHR ''@'') user)
                (username_min_length cfg) (username_max_length cfg)]
      else [])"
proof (cases "count_list user (CHR ''@'') = 1")
  case False
  then show ?thesis by (simp add: is_allowed_to_create_not_two)
next
  case True
  then obtain a b where ab: "str_split (CHR ''@'') user = [a, b]"
    using str_split_two_cases by blast
  then have a: "takeWhile (\<lambda>c. c \<noteq> CHR ''@'') user = a"
    using str_split_two_localpart [of "CHR ''@''" user a b] by simp
  show ?thesis
    unfolding a is_allowed_to_create_parts [OF ab] using True by auto
qed

lemma count_list_append: "count_list (xs @ ys) c = count_list xs c + count_list ys c"
  by (induction xs) simp_all

lemma count_list_zero: "c \<notin> set xs \<Longrightarrow> count_list xs c = 0"
  by (induction xs) auto

lemma address_count:
  "CHR ''@'' \<notin> set lp \<Longrightarrow> CHR ''@'' \<notin> set dm \<Longrightarrow>
     count_list (lp @ CHR ''@'' # dm) (CHR ''@'') = 1"
  by (simp add: count_list_append count_list_zero)

section \<open>Theorems about the account-creation policy\<close>

text \<open>
  Claim C4. \<^verbatim>\<open>is_allowed_to_create\<close> returns true exactly when all five checks pass: the
  marker file is absent, the password has at least the configured length, the address
  holds exactly one at sign (it splits into two parts), the part before it is not
  \<^verbatim>\<open>echo\<close>, and the length of that part lies within the configured bounds, both
  inclusive. The warning it logs is that of the first check that fails, in the order of
  the source. With the bounds 6 and 10, local parts of length 5 and 11 are rejected and
  those of length 6 and 10 are accepted.
\<close>

theorem is_allowed_to_create_checks:
  "(fst (is_allowed_to_create fs cfg user pw) \<longleftrightarrow>
       \<not> nocreate_exists fs
       \<and> password_min_length cfg \<le> int (length pw)
       \<and> count_list user (CHR ''@'') = 1
       \<and> takeWhile (\<lambda>c. c \<noteq> CHR ''@'') user \<noteq> ''echo''
       \<and> username_min_length cfg \<le> int (length (takeWhile (\<lambda>c. c \<noteq> CHR ''@'') user))
       \<and> int (length (takeWhile (\<lambda>c. c \<noteq> CHR ''@'') user)) \<le> username_max_length cfg)
   \<and> snd (is_allowed_to_create fs cfg user pw) =
       (if nocreate_exists fs then [Blocked_nocreate]
        else if int (length pw) < password_min_length cfg
          then [Password_too_short (password_min_length cfg)]
        else if count_list user (CHR ''@'') \<noteq> 1 then [Not_an_address user]
        else if takeWhile (\<lambda>c. c \<noteq> CHR ''@'') user = ''echo'' then []
        else if username_max_length cfg < int (length (takeWhile (\<lambda>c. c \<noteq> CHR ''@'') user))
              \<or> int (length (takeWhile (\<lambda>c. c \<noteq> CHR ''@'') user)) < username_min_length cfg
          then [Localpart_length (takeWhile (\<lambda>c. c \<noteq> CHR ''@'') user)
                  (username_min_length cfg) (username_max_length cfg)]
        else [])
   \<and> (username_min_length cfg = 6 \<and> username_max_length cfg = 10
        \<and> \<not> nocreate_exists fs \<and> password_min_length cfg \<le> int (length pw)
        \<and> CHR ''@'' \<notin> set lp \<and> CHR ''@'' \<notin> set dm \<longrightarrow>
          (length lp = 5 \<longrightarrow> \<not> fst (is_allowed_to_create fs cfg (lp @ CHR ''@'' # dm) pw))
        \<and> (length lp = 11 \<longrightarrow> \<not> fst (is_allowed_to_create fs cfg (lp @ CHR ''@'' # dm) pw))
        \<and> (length lp = 6 \<longrightarrow> fst (is_allowed_to_create fs cfg (lp @ CHR ''@'' # dm) pw))
        \<and> (length lp = 10 \<longrightarrow> fst (is_allowed_to_create fs cfg (lp @ CHR ''@'' # dm) pw)))"
proof (intro conjI)
  show "fst (is_allowed_to_create fs cfg user pw) \<longleftrightarrow>
       \<not> nocreate_exists fs
       \<and> password_min_length cfg \<le> int (length pw)
       \<and> count_list user (CHR ''@'') = 1
       \<and> takeWhile (\<lambda>c. c \<noteq> CHR ''@'') user \<noteq> ''echo''
       \<and> username_min_length cfg \<le> int (length (takeWhile (\<lambda>c. c \<noteq> CHR ''@'') user))
       \<and> int (length (takeWhile (\<lambda>c. c \<noteq> CHR ''@'') user)) \<le> username_max_length cfg"
    by (rule is_allowed_to_create_fst)
next
  show "snd (is_allowed_to_create fs cfg user pw) =
       (if nocreate_exists fs then [Blocked_nocreate]
        else if int (length pw) < password_min_length cfg
          then [Password_too_short (password_min_length cfg)]
        else if count_list user (CHR ''@'') \<noteq> 1 then [Not_an_address user]
        else if takeWhile (\<lambda>c. c \<noteq> CHR ''@'') user = ''echo'' then []
        else if username_max_length cfg < int (length (takeWhile (\<lambda>c. c \<noteq> CHR ''@'') user))
              \<or> int (length (takeWhile (\<lambda>c. c \<noteq> CHR ''@'') user)) < username_min_length cfg
          then [Localpart_length (takeWhile (\<lambda>c. c \<noteq> CHR ''@'') user)
                  (username_min_length cfg) (username_max_length cfg)]
        else [])"
    by (rule is_allowed_to_create_snd)
next
  show "username_min_length cfg = 6 \<and> username_max_length cfg = 10
        \<and> \<not> nocreate_exists fs \<and> password_min_length cfg \<le> int (length pw)
        \<and> CHR ''@'' \<notin> set lp \<and> CHR ''@'' \<notin> set dm \<longrightarrow>
          (length lp = 5 \<longrightarrow> \<not> fst (is_allowed_to_create fs cfg (lp @ CHR ''@'' # dm) pw))
        \<and> (length lp = 11 \<longrightarrow> \<not> fst (is_allowed_to_create fs cfg (lp @ CHR ''@'' # dm) pw))
        \<and> (length lp = 6 \<longrightarrow> fst (is_allowed_to_create fs cfg (lp @ CHR ''@'' # dm) pw))
        \<and> (length lp = 10 \<longrightarrow> fst (is_allowed_to_create fs cfg (lp @ CHR ''@'' # dm) pw))"
  proof
    assume h: "username_min_length cfg = 6 \<and> username_max_length cfg = 10
        \<and> \<not> nocreate_exists fs \<and> password_min_length cfg \<le> int (length pw)
        \<and> CHR ''@'' \<notin> set lp \<and> CHR ''@'' \<notin> set dm"
    then have lp: "takeWhile (\<lambda>c. c \<noteq> CHR ''@'') (lp @ CHR ''@'' # dm) = lp"
      by (simp add: takeWhile_before_sep)
    from h have cnt: "count_list (lp @ CHR ''@'' # dm) (CHR ''@'') = 1"
      by (simp add: address_count)
    have echo: "length lp = 6 \<or> length lp = 10 \<Longrightarrow> lp \<noteq> ''echo''" by auto
    from h echo show "(length lp = 5 \<longrightarrow> \<not> fst (is_allowed_to_create fs cfg (lp @ CHR ''@'' # dm) pw))
        \<and> (length lp = 11 \<longrightarrow> \<not> fst (is_allowed_to_create fs cfg (lp @ CHR ''@'' # dm) pw))
        \<and> (length lp = 6 \<longrightarrow> fst (is_allowed_to_create fs cfg (lp @ CHR ''@'' # dm) pw))
        \<and> (length lp = 10 \<longrightarrow> fst (is_allowed_to_create fs cfg (lp @ CHR ''@'' # dm) pw))"
      by (simp add: is_allowed_to_create_fst lp cnt)
  qed
qed

theorem is_allowed_to_create_checks_witness:
  "\<not> fst (is_allowed_to_create empty_fs example_config ''a1234@chat.example.org'' ''q9mr3faue'')
   \<and> fst (is_allowed_to_create empty_fs example_config ''012345@chat.example.org'' ''q9mr3faue'')
   \<and> fst (is_allowed_to_create empty_fs example_config ''0123456789@chat.example.org'' ''q9mr3faue'')
   \<and> \<not> fst (is_allowed_to_create empty_fs example_config ''0123456789x@chat.example.org'' ''q9mr3faue'')
   \<and> snd (is_allowed_to_create empty_fs example_config ''a1234@chat.example.org'' ''q9mr3faue'')
       = [Localpart_length ''a1234'' 6 10]"
  using
    is_allowed_to_create_checks [of empty_fs example_config "''a1234@chat.example.org''"
      "''q9mr3faue''" "''a1234''" "''chat.example.org''"]
    is_allowed_to_create_checks [of empty_fs example_config "''a1234@chat.example.org''"
      "''q9mr3faue''" "''012345''" "''chat.example.org''"]
    is_allowed_to_create_checks [of empty_fs example_config "''a1234@chat.example.org''"
      "''q9mr3faue''" "''0123456789''" "''chat.example.org''"]
    is_allowed_to_create_checks [of empty_fs example_config "''a1234@chat.example.org''"
      "''q9mr3faue''" "''0123456789x''" "''chat.example.org''"]
  by (simp add: example_config_def empty_fs_def)

text \<open>
  Claim C5. An address whose local part (the text before the first at sign) is the
  reserved name \<^verbatim>\<open>echo\<close> is rejected by \<^verbatim>\<open>is_allowed_to_create\<close> for every password,
  every domain, every configuration and every state of the file system.
\<close>

theorem reserved_localpart_rejected:
  "(takeWhile (\<lambda>c. c \<noteq> CHR ''@'') user = ''echo''
      \<longrightarrow> \<not> fst (is_allowed_to_create fs cfg user pw))
   \<and> \<not> fst (is_allowed_to_create fs cfg (''echo@'' @ dm) pw)"
  by (simp add: is_allowed_to_create_fst)

theorem reserved_localpart_rejected_witness:
  "takeWhile (\<lambda>c. c \<noteq> CHR ''@'') ''echo@chat.example.org'' = ''echo''
   \<and> \<not> fst (is_allowed_to_create empty_fs example_config ''echo@chat.example.org''
               ''zequ0Aimuchoodaechik'')"
  using reserved_localpart_rejected
    [of "''echo@chat.example.org''" empty_fs example_config "''zequ0Aimuchoodaechik''"]
  by simp

section \<open>Lookup and provisioning: lemmas\<close>

lemma alist_update_nonempty: "AList.update k v al \<noteq> []"
  by (cases al) simp_all

lemma dict_update_nonempty: "d \<noteq> [] \<Longrightarrow> dict_update d e \<noteq> []"
  unfolding dict_update_def
  by (induction e arbitrary: d) (simp_all add: alist_update_nonempty)

lemma map_of_dict_update_other:
  "k \<notin> fst ` set e \<Longrightarrow> map_of (dict_update d e) k = map_of d k"
  unfolding dict_update_def
  by (induction e arbitrary: d) (auto simp add: update_conv')

lemma lookup_userdb_established:
  "read_password fs user = Some h \<Longrightarrow>
     lookup_userdb cfg fs user
       = dict_update [(''addr'', user), (''password'', h)] (get_user_dict cfg user None)"
  by (simp add: lookup_userdb_def)

lemma lookup_userdb_empty_iff:
  "lookup_userdb cfg fs user = [] \<longleftrightarrow> read_password fs user = None"
  by (cases "read_password fs user") (simp_all add: lookup_userdb_def dict_update_nonempty)

lemma lookup_passdb_check_finish:
  "lookup_passdb cfg crypt fs user pw
     = lookup_passdb_finish cfg crypt fs user pw (lookup_passdb_check cfg fs user pw)"
  by (simp add: lookup_passdb_def lookup_passdb_check_def lookup_passdb_finish_def Let_def
        split: sum.splits)

lemma lookup_passdb_check_Create:
  "lookup_passdb_check cfg fs user pw = Create
     \<longleftrightarrow> read_password fs user = None \<and> fst (is_allowed_to_create fs cfg user pw)"
  by (simp add: lookup_passdb_check_def Let_def lookup_userdb_empty_iff)

lemma lookup_passdb_finish_Create:
  "nul \<notin> set pw \<Longrightarrow>
     lookup_passdb_finish cfg crypt fs user pw Create
       = Inr (Dict (get_user_dict cfg user (Some (''{SHA512-CRYPT}'' @ crypt pw))),
              set_user_password fs user (''{SHA512-CRYPT}'' @ crypt pw))"
  by (simp add: lookup_passdb_finish_def encrypt_password_def)


lemma lookup_passdb_creates:
  assumes "read_password fs user = None"
      and "fst (is_allowed_to_create fs cfg user pw)"
      and "nul \<notin> set pw"
  shows "lookup_passdb cfg crypt fs user pw
           = Inr (Dict (get_user_dict cfg user (Some (''{SHA512-CRYPT}'' @ crypt pw))),
                  set_user_password fs user (''{SHA512-CRYPT}'' @ crypt pw))"
proof -
  from assms(1,2) have "lookup_passdb_check cfg fs user pw = Create"
    by (simp add: lookup_passdb_check_Create)
  with assms(3) show ?thesis
    by (simp add: lookup_passdb_check_finish lookup_passdb_finish_Create)
qed



lemma lookup_passdb_raises_iff:
  "lookup_passdb cfg crypt fs user pw = Inl e
     \<longleftrightarrow> e = ValueError \<and> read_password fs user = None
         \<and> fst (is_allowed_to_create fs cfg user pw) \<and> nul \<in> set pw"
  by (auto simp add: lookup_passdb_def Let_def encrypt_password_def lookup_userdb_empty_iff)

lemma lookup_passdb_truthy:
  "lookup_passdb cfg crypt fs user pw = Inr (res, fs') \<Longrightarrow> truthy res \<Longrightarrow>
     \<exists>d. d \<noteq> [] \<and> res = Dict d"
  by (auto simp add: lookup_passdb_def Let_def split: if_splits sum.splits)


section \<open>Theorems about lookup and provisioning\<close>

text \<open>
  Claim C1. When the password file of an address exists, \<^verbatim>\<open>lookup_passdb\<close> returns the
  record that \<^verbatim>\<open>lookup_userdb\<close> reads, whatever cleartext password and whatever hashing
  primitive it is given, and leaves the file system as it was. A second call with
  another password returns the same record, and the stored hash is still the same. The
  record is not empty, and its \<^verbatim>\<open>password\<close> is the stored text unless
  \<^verbatim>\<open>get_user_dict\<close> itself supplies that key.
\<close>

theorem lookup_passdb_established:
  assumes "read_password fs user = Some h"
  shows "lookup_passdb cfg crypt fs user pw = Inr (Dict (lookup_userdb cfg fs user), fs)
     \<and> lookup_userdb cfg fs user \<noteq> []
     \<and> lookup_passdb cfg crypt' (snd (projr (lookup_passdb cfg crypt fs user pw))) user pw'
         = Inr (Dict (lookup_userdb cfg fs user), fs)
     \<and> read_password
           (snd (projr (lookup_passdb cfg crypt'
                          (snd (projr (lookup_passdb cfg crypt fs user pw))) user pw')))
           user = Some h
     \<and> (''password'' \<notin> fst ` set (get_user_dict cfg user None)
          \<longrightarrow> map_of (lookup_userdb cfg fs user) ''password'' = Some h)"
proof -
  from assms have ne: "lookup_userdb cfg fs user \<noteq> []"
    by (simp add: lookup_userdb_empty_iff)
  then have one:
    "\<And>c p. lookup_passdb cfg c fs user p = Inr (Dict (lookup_userdb cfg fs user), fs)"
    by (simp add: lookup_passdb_def)
  have pw: "''password'' \<notin> fst ` set (get_user_dict cfg user None)
          \<longrightarrow> map_of (lookup_userdb cfg fs user) ''password'' = Some h"
    by (simp add: lookup_userdb_established [OF assms] map_of_dict_update_other)
  from ne one pw assms show ?thesis by simp
qed

theorem lookup_passdb_established_witness:
  "read_password one_account_fs ''asdf12345@chat.example.org''
     = Some ''{SHA512-CRYPT}$6$salt$euaf3rm9q''
   \<and> lookup_passdb example_config example_crypt one_account_fs
        ''asdf12345@chat.example.org'' ''q9mr3jewvadsfaue''
       = Inr (Dict [(''addr'', ''asdf12345@chat.example.org''),
                    (''password'', ''{SHA512-CRYPT}$6$salt$euaf3rm9q''),
                    (''home'', ''/home/vmail/mail/chat.example.org/asdf12345@chat.example.org''),
                    (''uid'', ''vmail''), (''gid'', ''vmail'')],
              one_account_fs)"
  using lookup_passdb_established
    [of one_account_fs "''asdf12345@chat.example.org''" "''{SHA512-CRYPT}$6$salt$euaf3rm9q''"
        example_config example_crypt "''q9mr3jewvadsfaue''" example_crypt "''kajdslqwe''"]
  by (simp add: one_account_fs_def read_password_def lookup_userdb_def dict_update_def
        example_config_def example_user_dict_def)

text \<open>
  Claim C10. When an address has no password file and the policy rejects the request,
  \<^verbatim>\<open>lookup_passdb\<close> returns \<^verbatim>\<open>None\<close> and the file system it leaves is the one
  it was given: a following \<^verbatim>\<open>lookup_userdb\<close> of the address is still empty.
\<close>

theorem lookup_passdb_rejected:
  assumes "read_password fs user = None"
      and "\<not> fst (is_allowed_to_create fs cfg user pw)"
  shows "lookup_passdb cfg crypt fs user pw = Inr (PyNone, fs)
     \<and> lookup_userdb cfg (snd (projr (lookup_passdb cfg crypt fs user pw))) user = []
     \<and> read_password (snd (projr (lookup_passdb cfg crypt fs user pw))) user = None"
proof -
  from assms(1) have "lookup_userdb cfg fs user = []" by (simp add: lookup_userdb_empty_iff)
  with assms have "lookup_passdb cfg crypt fs user pw = Inr (PyNone, fs)"
    by (simp add: lookup_passdb_def)
  with assms(1) \<open>lookup_userdb cfg fs user = []\<close> show ?thesis by simp
qed

theorem lookup_passdb_rejected_witness:
  "read_password empty_fs ''echo@chat.example.org'' = None
   \<and> \<not> fst (is_allowed_to_create empty_fs example_config ''echo@chat.example.org''
               ''zequ0Aimuchoodaechik'')
   \<and> lookup_passdb example_config example_crypt empty_fs ''echo@chat.example.org''
        ''zequ0Aimuchoodaechik'' = Inr (PyNone, empty_fs)
   \<and> lookup_userdb example_config empty_fs ''echo@chat.example.org'' = []"
proof -
  have a: "read_password empty_fs ''echo@chat.example.org'' = None"
    by (simp add: read_password_def empty_fs_def)
  have b: "\<not> fst (is_allowed_to_create empty_fs example_config ''echo@chat.example.org''
               ''zequ0Aimuchoodaechik'')"
    by (simp add: is_allowed_to_create_fst)
  from lookup_passdb_rejected [OF a b, of example_crypt] a b show ?thesis
    by (simp add: lookup_userdb_empty_iff)
qed




section \<open>The dispatcher: lemmas\<close>

lemma length_split_upto:
  "length (split_upto sep n out s) = Suc (min n (count_list s sep))"
  by (induction sep n out s rule: split_upto.induct) simp_all

lemma length_str_split_max:
  "length (str_split_max sep n s) = Suc (min n (count_list s sep))"
  by (simp add: str_split_max_def length_split_upto)

lemma handle_lookup_routed:
  assumes "str_split_max (CHR ''/'') 2 keyname = [ns, ty, blob]"
      and "split_and_unescape blob = Inr args"
  shows "handle_lookup cfg crypt jd fs (keyname # rest) =
     (if ns = ''shared'' then
        if ty = ''userdb'' then
          (case nth_py args 0 of Inl e \<Rightarrow> Inl e | Inr user \<Rightarrow>
           (let res = (if endswith user (''@'' @ mail_domain cfg)
                       then Dict (lookup_userdb cfg fs user) else Str [])
            in Inr (reply_line jd (if truthy res then ''O'' else ''N'') res, fs)))
        else if ty = ''passdb'' then
          (case nth_py args 1 of Inl e \<Rightarrow> Inl e | Inr user \<Rightarrow>
           if endswith user (''@'' @ mail_domain cfg) then
             (case nth_py args 0 of Inl e \<Rightarrow> Inl e | Inr cleartext_password \<Rightarrow>
              (case lookup_passdb cfg crypt fs user cleartext_password of
                 Inl e \<Rightarrow> Inl e
               | Inr (res, fs') \<Rightarrow>
                   Inr (reply_line jd (if truthy res then ''O'' else ''N'') res, fs')))
           else Inr (reply_line jd ''N'' (Str []), fs))
        else Inr (reply_line jd ''F'' (Str []), fs)
      else Inr (reply_line jd ''F'' (Str []), fs))"
  using assms by (simp add: handle_lookup_def nth_py_def)

lemma handle_lookup_tokenizer_error:
  assumes "str_split_max (CHR ''/'') 2 keyname = [ns, ty, blob]"
      and "split_and_unescape blob = Inl e"
  shows "handle_lookup cfg crypt jd fs (keyname # rest) = Inl e"
  using assms by (simp add: handle_lookup_def nth_py_def)

lemma handle_lookup_unpack_error:
  assumes "length (str_split_max (CHR ''/'') 2 keyname) \<noteq> 3"
  shows "handle_lookup cfg crypt jd fs (keyname # rest) = Inl ValueError"
proof -
  have "(case str_split_max (CHR ''/'') 2 keyname of
           [namespace, type, blob] \<Rightarrow> f namespace type blob | _ \<Rightarrow> Inl ValueError)
        = Inl ValueError" for f :: "string \<Rightarrow> string \<Rightarrow> string \<Rightarrow> error + (string \<times> fsys)"
    using assms by (auto split: list.splits)
  then show ?thesis by (simp add: handle_lookup_def nth_py_def)
qed

lemma handle_lookup_Inr_shape:
  assumes "handle_lookup cfg crypt jd fs parts = Inr x"
  shows "\<exists>keyname rest ns ty blob args.
           parts = keyname # rest
           \<and> str_split_max (CHR ''/'') 2 keyname = [ns, ty, blob]
           \<and> split_and_unescape blob = Inr args"
proof (cases parts)
  case Nil
  with assms show ?thesis by (simp add: handle_lookup_def nth_py_def)
next
  case (Cons keyname rest)
  show ?thesis
  proof (cases "length (str_split_max (CHR ''/'') 2 keyname) = 3")
    case False
    with assms Cons show ?thesis by (simp add: handle_lookup_unpack_error)
  next
    case True
    then obtain ns ty blob where sp: "str_split_max (CHR ''/'') 2 keyname = [ns, ty, blob]"
      by (auto simp add: length_Suc_conv numeral_3_eq_3)
    show ?thesis
    proof (cases "split_and_unescape blob")
      case (Inl e)
      with assms Cons sp show ?thesis by (simp add: handle_lookup_tokenizer_error)
    next
      case (Inr args)
      with Cons sp show ?thesis by simp
    qed
  qed
qed

lemma split_and_unescape_nonempty: "split_and_unescape blob = Inr args \<Longrightarrow> args \<noteq> []"
proof -
  have "unescape_from out ys s = Inr args \<Longrightarrow> args \<noteq> []" for out ys s
    by (induction out ys s rule: unescape_from.induct) (auto split: if_splits list.splits)
  then show "split_and_unescape blob = Inr args \<Longrightarrow> args \<noteq> []"
    by (simp add: split_and_unescape_eq)
qed

lemma handle_lookup_unrecognised:
  assumes "str_split_max (CHR ''/'') 2 keyname = [ns, ty, blob]"
      and "split_and_unescape blob = Inr args"
      and "\<not> (ns = ''shared'' \<and> (ty = ''userdb'' \<or> ty = ''passdb''))"
  shows "handle_lookup cfg crypt jd fs (keyname # rest) = Inr (''F'' @ [newline], fs)"
  using assms(3) by (auto simp add: handle_lookup_routed [OF assms(1,2)] reply_line_def)

lemma handle_lookup_userdb:
  assumes "str_split_max (CHR ''/'') 2 keyname = [''shared'', ''userdb'', blob]"
      and "split_and_unescape blob = Inr args"
  shows "handle_lookup cfg crypt jd fs (keyname # rest) =
           Inr (if endswith (args ! 0) (''@'' @ mail_domain cfg)
                   \<and> lookup_userdb cfg fs (args ! 0) \<noteq> []
                then ''O'' @ jd (Dict (lookup_userdb cfg fs (args ! 0))) @ [newline]
                else ''N'' @ [newline], fs)"
  using split_and_unescape_nonempty [OF assms(2)]
  by (simp add: handle_lookup_routed [OF assms] reply_line_def nth_py_def Let_def)

lemma handle_lookup_passdb_mismatch:
  assumes "str_split_max (CHR ''/'') 2 keyname = [''shared'', ''passdb'', blob]"
      and "split_and_unescape blob = Inr args"
      and "2 \<le> length args"
      and "\<not> endswith (args ! 1) (''@'' @ mail_domain cfg)"
  shows "handle_lookup cfg crypt jd fs (keyname # rest) = Inr (''N'' @ [newline], fs)"
proof -
  from assms(3) have len: "0 < length args" "Suc 0 < length args" by arith+
  with assms(4) show ?thesis
    by (simp add: handle_lookup_routed [OF assms(1,2)] reply_line_def nth_py_def)
qed

lemma handle_lookup_passdb:
  assumes "str_split_max (CHR ''/'') 2 keyname = [''shared'', ''passdb'', blob]"
      and "split_and_unescape blob = Inr args"
      and "2 \<le> length args"
      and "endswith (args ! 1) (''@'' @ mail_domain cfg)"
  shows "handle_lookup cfg crypt jd fs (keyname # rest) =
           (case lookup_passdb cfg crypt fs (args ! 1) (args ! 0) of
              Inl e \<Rightarrow> Inl e
            | Inr (res, fs') \<Rightarrow>
                Inr (if truthy res then ''O'' @ jd res @ [newline] else ''N'' @ [newline], fs'))"
proof -
  from assms(3) have len: "0 < length args" "Suc 0 < length args" by arith+
  show ?thesis
  proof (cases "lookup_passdb cfg crypt fs (args ! 1) (args ! 0)")
    case (Inl e)
    with assms(4) len show ?thesis
      by (simp add: handle_lookup_routed [OF assms(1,2)] nth_py_def)
  next
    case (Inr r)
    obtain res fs2 where "r = (res, fs2)" by (cases r)
    with Inr assms(4) len show ?thesis
      by (simp add: handle_lookup_routed [OF assms(1,2)] reply_line_def nth_py_def)
  qed
qed

lemma handle_lookup_returned:
  assumes "handle_lookup cfg crypt jd fs parts = Inr (reply, fs')"
  shows "\<exists>keyname rest ns ty blob args.
           parts = keyname # rest
         \<and> str_split_max (CHR ''/'') 2 keyname = [ns, ty, blob]
         \<and> split_and_unescape blob = Inr args
         \<and> (if ns = ''shared'' \<and> (ty = ''userdb'' \<or> ty = ''passdb'')
            then reply = ''N'' @ [newline]
                 \<or> (\<exists>d. d \<noteq> [] \<and> reply = ''O'' @ jd (Dict d) @ [newline])
            else reply = ''F'' @ [newline] \<and> fs' = fs)"
proof -
  from handle_lookup_Inr_shape [OF assms]
  obtain keyname rest ns ty blob args where
    p: "parts = keyname # rest" and
    sp: "str_split_max (CHR ''/'') 2 keyname = [ns, ty, blob]" and
    tk: "split_and_unescape blob = Inr args"
    by blast
  note eq = assms [unfolded p]
  have "if ns = ''shared'' \<and> (ty = ''userdb'' \<or> ty = ''passdb'')
        then reply = ''N'' @ [newline]
             \<or> (\<exists>d. d \<noteq> [] \<and> reply = ''O'' @ jd (Dict d) @ [newline])
        else reply = ''F'' @ [newline] \<and> fs' = fs"
  proof (cases "ns = ''shared'' \<and> (ty = ''userdb'' \<or> ty = ''passdb'')")
    case False
    with eq handle_lookup_unrecognised [OF sp tk False, of cfg crypt jd fs rest]
    show ?thesis by auto
  next
    case True
    show ?thesis
    proof (cases "ty = ''userdb''")
      case True
      with \<open>ns = ''shared'' \<and> (ty = ''userdb'' \<or> ty = ''passdb'')\<close> sp
      have sp': "str_split_max (CHR ''/'') 2 keyname = [''shared'', ''userdb'', blob]" by simp
      from eq handle_lookup_userdb [OF sp' tk, of cfg crypt jd fs rest] True
        \<open>ns = ''shared'' \<and> (ty = ''userdb'' \<or> ty = ''passdb'')\<close>
      show ?thesis by (auto split: if_splits)
    next
      case False
      with True sp
      have sp': "str_split_max (CHR ''/'') 2 keyname = [''shared'', ''passdb'', blob]" by simp
      have rec: "ns = ''shared'' \<and> (ty = ''userdb'' \<or> ty = ''passdb'')" by (rule True)
      show ?thesis
      proof (cases "2 \<le> length args")
        case False
        with eq show ?thesis
          by (simp add: handle_lookup_routed [OF sp' tk] nth_py_def)
      next
        case len: True
        show ?thesis
        proof (cases "endswith (args ! 1) (''@'' @ mail_domain cfg)")
          case False
          from eq handle_lookup_passdb_mismatch [OF sp' tk len False, of crypt jd fs rest] rec
          show ?thesis by simp
        next
          case True
          note h = handle_lookup_passdb [OF sp' tk len True, of crypt jd fs rest]
          show ?thesis
          proof (cases "lookup_passdb cfg crypt fs (args ! 1) (args ! 0)")
            case (Inl e)
            with eq h show ?thesis by simp
          next
            case (Inr r)
            obtain res fs2 where r: "r = (res, fs2)" by (cases r)
            show ?thesis
            proof (cases "truthy res")
              case True
              with lookup_passdb_truthy [of cfg crypt fs "args ! 1" "args ! 0" res fs2] Inr r
              obtain d where "d \<noteq> []" "res = Dict d" by auto
              with eq h Inr r True rec show ?thesis by auto
            next
              case False
              with eq h Inr r rec show ?thesis by auto
            qed
          qed
        qed
      qed
    qed
  qed
  with p sp tk show ?thesis by blast
qed

section \<open>Theorems about the lookup dispatcher\<close>

text \<open>
  Claim C7. On a line whose key splits into namespace, kind and argument blob and whose
  blob tokenizes, \<^verbatim>\<open>handle_lookup\<close> replies as follows, each reply ended by one newline.
  For every namespace and kind other than \<^verbatim>\<open>shared/userdb\<close> and \<^verbatim>\<open>shared/passdb\<close> the
  reply is \<^verbatim>\<open>F\<close> alone. For \<^verbatim>\<open>shared/userdb\<close> it is \<^verbatim>\<open>O\<close> with the serialised record when
  the address ends with the at sign and the configured mail domain and \<^verbatim>\<open>lookup_userdb\<close>
  returns a non-empty record, and \<^verbatim>\<open>N\<close> alone otherwise. For \<^verbatim>\<open>shared/passdb\<close> with its
  two arguments it is \<^verbatim>\<open>N\<close> alone when the address does not end with the mail domain, and
  otherwise \<^verbatim>\<open>O\<close> with the record that \<^verbatim>\<open>lookup_passdb\<close> returns, or \<^verbatim>\<open>N\<close> alone when
  that result is \<^verbatim>\<open>None\<close>; the call returns unless the account is to be created with a
  password that holds a NUL character. Whatever the line, a reply that is returned is one
  of the three forms.
\<close>

theorem handle_lookup_reply_forms:
  assumes "str_split_max (CHR ''/'') 2 keyname = [ns, ty, blob]"
      and "split_and_unescape blob = Inr args"
  shows
    "(\<not> (ns = ''shared'' \<and> (ty = ''userdb'' \<or> ty = ''passdb''))
        \<longrightarrow> handle_lookup cfg crypt jd fs (keyname # rest) = Inr (''F'' @ [newline], fs))
   \<and> (ns = ''shared'' \<and> ty = ''userdb''
        \<longrightarrow> handle_lookup cfg crypt jd fs (keyname # rest) =
              Inr (if endswith (args ! 0) (''@'' @ mail_domain cfg)
                      \<and> lookup_userdb cfg fs (args ! 0) \<noteq> []
                   then ''O'' @ jd (Dict (lookup_userdb cfg fs (args ! 0))) @ [newline]
                   else ''N'' @ [newline], fs))
   \<and> (ns = ''shared'' \<and> ty = ''passdb'' \<and> 2 \<le> length args
        \<and> \<not> endswith (args ! 1) (''@'' @ mail_domain cfg)
        \<longrightarrow> handle_lookup cfg crypt jd fs (keyname # rest) = Inr (''N'' @ [newline], fs))
   \<and> (ns = ''shared'' \<and> ty = ''passdb'' \<and> 2 \<le> length args
        \<and> endswith (args ! 1) (''@'' @ mail_domain cfg)
        \<longrightarrow> handle_lookup cfg crypt jd fs (keyname # rest) =
              (case lookup_passdb cfg crypt fs (args ! 1) (args ! 0) of
                 Inl e \<Rightarrow> Inl e
               | Inr (res, fs') \<Rightarrow>
                   Inr (if truthy res then ''O'' @ jd res @ [newline] else ''N'' @ [newline],
                        fs'))
            \<and> (nul \<notin> set (args ! 0)
                 \<longrightarrow> (\<exists>res fs'. lookup_passdb cfg crypt fs (args ! 1) (args ! 0)
                                   = Inr (res, fs'))))
   \<and> (\<forall>reply fs'. handle_lookup cfg crypt jd fs parts = Inr (reply, fs')
        \<longrightarrow> reply = ''F'' @ [newline] \<or> reply = ''N'' @ [newline]
            \<or> (\<exists>d. d \<noteq> [] \<and> reply = ''O'' @ jd (Dict d) @ [newline]))"
proof (intro conjI impI allI)
  assume "\<not> (ns = ''shared'' \<and> (ty = ''userdb'' \<or> ty = ''passdb''))"
  with assms show "handle_lookup cfg crypt jd fs (keyname # rest) = Inr (''F'' @ [newline], fs)"
    by (rule handle_lookup_unrecognised)
next
  assume "ns = ''shared'' \<and> ty = ''userdb''"
  with assms(1) have "str_split_max (CHR ''/'') 2 keyname = [''shared'', ''userdb'', blob]"
    by simp
  then show "handle_lookup cfg crypt jd fs (keyname # rest) =
              Inr (if endswith (args ! 0) (''@'' @ mail_domain cfg)
                      \<and> lookup_userdb cfg fs (args ! 0) \<noteq> []
                   then ''O'' @ jd (Dict (lookup_userdb cfg fs (args ! 0))) @ [newline]
                   else ''N'' @ [newline], fs)"
    using assms(2) by (rule handle_lookup_userdb)
next
  assume h: "ns = ''shared'' \<and> ty = ''passdb'' \<and> 2 \<le> length args
        \<and> \<not> endswith (args ! 1) (''@'' @ mail_domain cfg)"
  with assms(1) have "str_split_max (CHR ''/'') 2 keyname = [''shared'', ''passdb'', blob]"
    by simp
  then show "handle_lookup cfg crypt jd fs (keyname # rest) = Inr (''N'' @ [newline], fs)"
    using assms(2) h by (simp add: handle_lookup_passdb_mismatch)
next
  assume h: "ns = ''shared'' \<and> ty = ''passdb'' \<and> 2 \<le> length args
        \<and> endswith (args ! 1) (''@'' @ mail_domain cfg)"
  with assms(1) have "str_split_max (CHR ''/'') 2 keyname = [''shared'', ''passdb'', blob]"
    by simp
  then show "handle_lookup cfg crypt jd fs (keyname # rest) =
              (case lookup_passdb cfg crypt fs (args ! 1) (args ! 0) of
                 Inl e \<Rightarrow> Inl e
               | Inr (res, fs') \<Rightarrow>
                   Inr (if truthy res then ''O'' @ jd res @ [newline] else ''N'' @ [newline],
                        fs'))"
    using assms(2) h by (simp add: handle_lookup_passdb)
next
  assume "nul \<notin> set (args ! 0)"
  then have "\<And>e. lookup_passdb cfg crypt fs (args ! 1) (args ! 0) \<noteq> Inl e"
    by (simp add: lookup_passdb_raises_iff)
  then show "\<exists>res fs'. lookup_passdb cfg crypt fs (args ! 1) (args ! 0) = Inr (res, fs')"
    by (cases "lookup_passdb cfg crypt fs (args ! 1) (args ! 0)") auto
next
  fix reply fs'
  assume "handle_lookup cfg crypt jd fs parts = Inr (reply, fs')"
  from handle_lookup_returned [OF this]
  show "reply = ''F'' @ [newline] \<or> reply = ''N'' @ [newline]
            \<or> (\<exists>d. d \<noteq> [] \<and> reply = ''O'' @ jd (Dict d) @ [newline])"
    by (auto split: if_splits)
qed

theorem handle_lookup_reply_forms_witness:
  "handle_lookup example_config example_crypt json_dumps empty_fs
     [''shared/passdb/q9mr3faue'' @ [dquote] @ ''asdf12345@chat.example.org'']
     = Inr (''O'' @ json_dumps (Dict (example_user_dict ''asdf12345@chat.example.org''
                                        (Some ''{SHA512-CRYPT}$6$salt$euaf3rm9q'')))
                @ [newline],
            one_account_fs)
   \<and> handle_lookup example_config example_crypt json_dumps one_account_fs
     [''shared/passdb/kajdslqwe'' @ [dquote] @ ''asdf12345@chat.example.org'']
     = Inr (''O'' @ json_dumps (Dict (lookup_userdb example_config one_account_fs
                                        ''asdf12345@chat.example.org'')) @ [newline],
            one_account_fs)
   \<and> handle_lookup example_config example_crypt json_dumps empty_fs
     [''shared/passdb/short'' @ [dquote] @ ''asdf12345@chat.example.org'']
     = Inr (''N'' @ [newline], empty_fs)
   \<and> handle_lookup example_config example_crypt json_dumps empty_fs
     [''shared/passdb/q9mr3faue'' @ [dquote] @ ''asdf12345@elsewhere.org'']
     = Inr (''N'' @ [newline], empty_fs)
   \<and> handle_lookup example_config example_crypt json_dumps one_account_fs
     [''shared/userdb/asdf12345@chat.example.org'']
     = Inr (''O'' @ json_dumps (Dict (lookup_userdb example_config one_account_fs
                                        ''asdf12345@chat.example.org'')) @ [newline],
            one_account_fs)
   \<and> handle_lookup example_config example_crypt json_dumps one_account_fs
     [''shared/userdb/foobar@chat.example.org'', ''foobar@chat.example.org'']
     = Inr (''N'' @ [newline], one_account_fs)
   \<and> handle_lookup example_config example_crypt json_dumps one_account_fs
     [''priv/userdb/asdf12345@chat.example.org'']
     = Inr (''F'' @ [newline], one_account_fs)"
proof -
  let ?user = "''asdf12345@chat.example.org''"
  have dom: "mail_domain example_config = ''chat.example.org''"
    by (simp add: example_config_def)
  have stored: "read_password one_account_fs ?user = Some ''{SHA512-CRYPT}$6$salt$euaf3rm9q''"
    by (simp add: read_password_def one_account_fs_def)
  have absent: "read_password empty_fs ?user = None"
    by (simp add: read_password_def empty_fs_def)
  have allowed: "fst (is_allowed_to_create empty_fs example_config ?user ''q9mr3faue'')"
    by (simp add: is_allowed_to_create_fst example_config_def empty_fs_def)
  have rejected: "\<not> fst (is_allowed_to_create empty_fs example_config ?user ''short'')"
    by (simp add: is_allowed_to_create_fst example_config_def empty_fs_def)
  have created: "lookup_passdb example_config example_crypt empty_fs ?user ''q9mr3faue''
      = Inr (Dict (example_user_dict ?user (Some ''{SHA512-CRYPT}$6$salt$euaf3rm9q'')),
             one_account_fs)"
    using lookup_passdb_creates [OF absent allowed, of example_crypt]
    by (simp add: example_crypt_def example_config_def set_user_password_def empty_fs_def
          one_account_fs_def)
  have exists: "lookup_passdb example_config example_crypt one_account_fs ?user ''kajdslqwe''
      = Inr (Dict (lookup_userdb example_config one_account_fs ?user), one_account_fs)"
    using stored by (simp add: lookup_passdb_def lookup_userdb_empty_iff)
  have refused: "lookup_passdb example_config example_crypt empty_fs ?user ''short''
      = Inr (PyNone, empty_fs)"
    using absent rejected by (simp add: lookup_passdb_def lookup_userdb_empty_iff)
  have truthy1: "truthy (Dict (example_user_dict ?user (Some ''{SHA512-CRYPT}$6$salt$euaf3rm9q'')))"
    by (simp add: example_user_dict_def)
  have truthy2: "lookup_userdb example_config one_account_fs ?user \<noteq> []"
    using stored by (simp add: lookup_userdb_empty_iff)
  have nofoo: "lookup_userdb example_config one_account_fs ''foobar@chat.example.org'' = []"
    by (simp add: lookup_userdb_empty_iff read_password_def one_account_fs_def)

  have sp1: "str_split_max (CHR ''/'') 2 (''shared/passdb/q9mr3faue'' @ [dquote] @ ?user)
      = [''shared'', ''passdb'', ''q9mr3faue'' @ [dquote] @ ?user]"
    by (simp add: str_split_max_def eval_nat_numeral)
  have tk1: "split_and_unescape (''q9mr3faue'' @ [dquote] @ ?user) = Inr [''q9mr3faue'', ?user]"
    by (simp add: split_and_unescape_eq)
  have r1: "handle_lookup example_config example_crypt json_dumps empty_fs
     [''shared/passdb/q9mr3faue'' @ [dquote] @ ?user]
     = Inr (''O'' @ json_dumps (Dict (example_user_dict ?user
                                        (Some ''{SHA512-CRYPT}$6$salt$euaf3rm9q'')))
                @ [newline],
            one_account_fs)"
    using handle_lookup_reply_forms [OF sp1 tk1, of example_config example_crypt json_dumps
        empty_fs "[]"] created truthy1
    by (simp add: dom endswith_def)

  have sp2: "str_split_max (CHR ''/'') 2 (''shared/passdb/kajdslqwe'' @ [dquote] @ ?user)
      = [''shared'', ''passdb'', ''kajdslqwe'' @ [dquote] @ ?user]"
    by (simp add: str_split_max_def eval_nat_numeral)
  have tk2: "split_and_unescape (''kajdslqwe'' @ [dquote] @ ?user) = Inr [''kajdslqwe'', ?user]"
    by (simp add: split_and_unescape_eq)
  have r2: "handle_lookup example_config example_crypt json_dumps one_account_fs
     [''shared/passdb/kajdslqwe'' @ [dquote] @ ?user]
     = Inr (''O'' @ json_dumps (Dict (lookup_userdb example_config one_account_fs ?user))
                @ [newline],
            one_account_fs)"
    using handle_lookup_reply_forms [OF sp2 tk2, of example_config example_crypt json_dumps
        one_account_fs "[]"] exists truthy2
    by (simp add: dom endswith_def)

  have sp3: "str_split_max (CHR ''/'') 2 (''shared/passdb/short'' @ [dquote] @ ?user)
      = [''shared'', ''passdb'', ''short'' @ [dquote] @ ?user]"
    by (simp add: str_split_max_def eval_nat_numeral)
  have tk3: "split_and_unescape (''short'' @ [dquote] @ ?user) = Inr [''short'', ?user]"
    by (simp add: split_and_unescape_eq)
  have r3: "handle_lookup example_config example_crypt json_dumps empty_fs
     [''shared/passdb/short'' @ [dquote] @ ?user] = Inr (''N'' @ [newline], empty_fs)"
    using handle_lookup_reply_forms [OF sp3 tk3, of example_config example_crypt json_dumps
        empty_fs "[]"] refused
    by (simp add: dom endswith_def)

  have sp4: "str_split_max (CHR ''/'') 2
        (''shared/passdb/q9mr3faue'' @ [dquote] @ ''asdf12345@elsewhere.org'')
      = [''shared'', ''passdb'', ''q9mr3faue'' @ [dquote] @ ''asdf12345@elsewhere.org'']"
    by (simp add: str_split_max_def eval_nat_numeral)
  have tk4: "split_and_unescape (''q9mr3faue'' @ [dquote] @ ''asdf12345@elsewhere.org'')
      = Inr [''q9mr3faue'', ''asdf12345@elsewhere.org'']"
    by (simp add: split_and_unescape_eq)
  have r4: "handle_lookup example_config example_crypt json_dumps empty_fs
     [''shared/passdb/q9mr3faue'' @ [dquote] @ ''asdf12345@elsewhere.org'']
     = Inr (''N'' @ [newline], empty_fs)"
    using handle_lookup_reply_forms [OF sp4 tk4, of example_config example_crypt json_dumps
        empty_fs "[]"]
    by (simp add: dom endswith_def)

  have sp5: "str_split_max (CHR ''/'') 2 ''shared/userdb/asdf12345@chat.example.org''
      = [''shared'', ''userdb'', ?user]"
    by (simp add: str_split_max_def eval_nat_numeral)
  have tk5: "split_and_unescape ?user = Inr [?user]"
    by (simp add: split_and_unescape_eq)
  have r5: "handle_lookup example_config example_crypt json_dumps one_account_fs
     [''shared/userdb/asdf12345@chat.example.org'']
     = Inr (''O'' @ json_dumps (Dict (lookup_userdb example_config one_account_fs ?user))
                @ [newline],
            one_account_fs)"
    using handle_lookup_reply_forms [OF sp5 tk5, of example_config example_crypt json_dumps
        one_account_fs "[]"] truthy2
    by (simp add: dom endswith_def)

  have sp6: "str_split_max (CHR ''/'') 2 ''shared/userdb/foobar@chat.example.org''
      = [''shared'', ''userdb'', ''foobar@chat.example.org'']"
    by (simp add: str_split_max_def eval_nat_numeral)
  have tk6: "split_and_unescape ''foobar@chat.example.org'' = Inr [''foobar@chat.example.org'']"
    by (simp add: split_and_unescape_eq)
  have r6: "handle_lookup example_config example_crypt json_dumps one_account_fs
     [''shared/userdb/foobar@chat.example.org'', ''foobar@chat.example.org'']
     = Inr (''N'' @ [newline], one_account_fs)"
    using handle_lookup_reply_forms [OF sp6 tk6, of example_config example_crypt json_dumps
        one_account_fs "[''foobar@chat.example.org'']"] nofoo
    by simp

  have sp7: "str_split_max (CHR ''/'') 2 ''priv/userdb/asdf12345@chat.example.org''
      = [''priv'', ''userdb'', ?user]"
    by (simp add: str_split_max_def eval_nat_numeral)
  have r7: "handle_lookup example_config example_crypt json_dumps one_account_fs
     [''priv/userdb/asdf12345@chat.example.org'']
     = Inr (''F'' @ [newline], one_account_fs)"
    using handle_lookup_reply_forms [OF sp7 tk5, of example_config example_crypt json_dumps
        one_account_fs "[]"]
    by simp

  from r1 r2 r3 r4 r5 r6 r7 show ?thesis by (intro conjI)
qed

text \<open>
  Claim C3, amended. On a malformed lookup line \<^verbatim>\<open>handle_lookup\<close> raises and returns no
  reply: ValueError when the key holds fewer than two slashes, IndexError when the
  argument blob ends in an unescaped backslash (an odd number of backslashes ends it),
  whatever the namespace and kind, and IndexError when a \<^verbatim>\<open>shared/passdb\<close> lookup has fewer
  than two arguments. It returns the line \<^verbatim>\<open>F\<close> for a key that splits and a blob that
  tokenizes when the namespace and kind are not \<^verbatim>\<open>shared/userdb\<close> or \<^verbatim>\<open>shared/passdb\<close>,
  and only then.
\<close>

theorem handle_lookup_malformed_raises:
  "(count_list keyname (CHR ''/'') < 2
      \<longrightarrow> handle_lookup cfg crypt jd fs (keyname # rest) = Inl ValueError)
   \<and> (str_split_max (CHR ''/'') 2 keyname = [ns, ty, blob] \<and> odd (trailing_backslashes blob)
      \<longrightarrow> split_and_unescape blob = Inl IndexError
          \<and> handle_lookup cfg crypt jd fs (keyname # rest) = Inl IndexError)
   \<and> (str_split_max (CHR ''/'') 2 keyname = [''shared'', ''passdb'', blob]
        \<and> split_and_unescape blob = Inr args \<and> length args < 2
      \<longrightarrow> handle_lookup cfg crypt jd fs (keyname # rest) = Inl IndexError)
   \<and> (str_split_max (CHR ''/'') 2 keyname = [ns, ty, blob]
        \<and> split_and_unescape blob = Inr args
        \<and> \<not> (ns = ''shared'' \<and> (ty = ''userdb'' \<or> ty = ''passdb''))
      \<longrightarrow> handle_lookup cfg crypt jd fs (keyname # rest) = Inr (''F'' @ [newline], fs))
   \<and> (handle_lookup cfg crypt jd fs parts = Inr (''F'' @ [newline], fs')
      \<longrightarrow> (\<exists>key others n t b a.
             parts = key # others
           \<and> str_split_max (CHR ''/'') 2 key = [n, t, b]
           \<and> split_and_unescape b = Inr a
           \<and> \<not> (n = ''shared'' \<and> (t = ''userdb'' \<or> t = ''passdb''))))"
proof (intro conjI impI)
  assume "count_list keyname (CHR ''/'') < 2"
  then have "length (str_split_max (CHR ''/'') 2 keyname) \<noteq> 3"
    by (simp add: length_str_split_max)
  then show "handle_lookup cfg crypt jd fs (keyname # rest) = Inl ValueError"
    by (rule handle_lookup_unpack_error)
next
  assume h: "str_split_max (CHR ''/'') 2 keyname = [ns, ty, blob] \<and> odd (trailing_backslashes blob)"
  then show tk: "split_and_unescape blob = Inl IndexError"
    by (simp add: split_and_unescape_eq unescape_from_fails_iff)
  from h tk show "handle_lookup cfg crypt jd fs (keyname # rest) = Inl IndexError"
    by (simp add: handle_lookup_tokenizer_error)
next
  assume h: "str_split_max (CHR ''/'') 2 keyname = [''shared'', ''passdb'', blob]
        \<and> split_and_unescape blob = Inr args \<and> length args < 2"
  then show "handle_lookup cfg crypt jd fs (keyname # rest) = Inl IndexError"
    by (simp add: handle_lookup_routed nth_py_def)
next
  assume "str_split_max (CHR ''/'') 2 keyname = [ns, ty, blob]
        \<and> split_and_unescape blob = Inr args
        \<and> \<not> (ns = ''shared'' \<and> (ty = ''userdb'' \<or> ty = ''passdb''))"
  then show "handle_lookup cfg crypt jd fs (keyname # rest) = Inr (''F'' @ [newline], fs)"
    by (simp add: handle_lookup_unrecognised)
next
  assume "handle_lookup cfg crypt jd fs parts = Inr (''F'' @ [newline], fs')"
  from handle_lookup_returned [OF this]
  obtain key others n t b a where
    "parts = key # others" "str_split_max (CHR ''/'') 2 key = [n, t, b]"
    "split_and_unescape b = Inr a"
    "if n = ''shared'' \<and> (t = ''userdb'' \<or> t = ''passdb'')
     then ''F'' @ [newline] = ''N'' @ [newline]
          \<or> (\<exists>d. d \<noteq> [] \<and> ''F'' @ [newline] = ''O'' @ jd (Dict d) @ [newline])
     else ''F'' @ [newline] = ''F'' @ [newline] \<and> fs' = fs"
    by blast
  then show "\<exists>key others n t b a.
             parts = key # others
           \<and> str_split_max (CHR ''/'') 2 key = [n, t, b]
           \<and> split_and_unescape b = Inr a
           \<and> \<not> (n = ''shared'' \<and> (t = ''userdb'' \<or> t = ''passdb''))"
    by (auto split: if_splits)
qed

theorem handle_lookup_malformed_raises_witness:
  "handle_lookup example_config example_crypt json_dumps empty_fs [''shared/passdb''] = Inl ValueError
   \<and> handle_lookup example_config example_crypt json_dumps empty_fs
       [''shared/passdb/q9mr3faue'' @ [dquote] @ ''asdf12345@chat.example.org'' @ [backslash]]
       = Inl IndexError
   \<and> handle_lookup example_config example_crypt json_dumps empty_fs
       [''shared/passdb/asdf12345@chat.example.org''] = Inl IndexError
   \<and> handle_lookup example_config example_crypt json_dumps empty_fs
       [''priv/passdb/asdf12345@chat.example.org''] = Inr (''F'' @ [newline], empty_fs)"
proof -
  have a: "count_list ''shared/passdb'' (CHR ''/'') < 2" by simp
  have b: "str_split_max (CHR ''/'') 2
             (''shared/passdb/q9mr3faue'' @ [dquote] @ ''asdf12345@chat.example.org'' @ [backslash])
           = [''shared'', ''passdb'', ''q9mr3faue'' @ [dquote] @ ''asdf12345@chat.example.org'' @ [backslash]]
         \<and> odd (trailing_backslashes
                  (''q9mr3faue'' @ [dquote] @ ''asdf12345@chat.example.org'' @ [backslash]))"
    by (simp add: str_split_max_def eval_nat_numeral trailing_backslashes_def)
  have c: "str_split_max (CHR ''/'') 2 ''shared/passdb/asdf12345@chat.example.org''
             = [''shared'', ''passdb'', ''asdf12345@chat.example.org'']
         \<and> split_and_unescape ''asdf12345@chat.example.org'' = Inr [''asdf12345@chat.example.org'']
         \<and> length [''asdf12345@chat.example.org''] < 2"
    by (simp add: str_split_max_def eval_nat_numeral split_and_unescape_eq)
  have d: "str_split_max (CHR ''/'') 2 ''priv/passdb/asdf12345@chat.example.org''
             = [''priv'', ''passdb'', ''asdf12345@chat.example.org'']
         \<and> split_and_unescape ''asdf12345@chat.example.org'' = Inr [''asdf12345@chat.example.org'']
         \<and> \<not> (''priv'' = ''shared'' \<and> (''passdb'' = ''userdb'' \<or> ''passdb'' = ''passdb''))"
    by (simp add: str_split_max_def eval_nat_numeral split_and_unescape_eq)
  have r1: "handle_lookup example_config example_crypt json_dumps empty_fs [''shared/passdb'']
      = Inl ValueError"
    using a handle_lookup_malformed_raises
      [where keyname = "''shared/passdb''" and cfg = example_config and crypt = example_crypt
         and jd = json_dumps and fs = empty_fs and rest = "[]"]
    by blast
  have r2: "handle_lookup example_config example_crypt json_dumps empty_fs
       [''shared/passdb/q9mr3faue'' @ [dquote] @ ''asdf12345@chat.example.org'' @ [backslash]]
       = Inl IndexError"
    using b handle_lookup_malformed_raises
      [where keyname = "''shared/passdb/q9mr3faue'' @ [dquote] @ ''asdf12345@chat.example.org''
                          @ [backslash]"
         and ns = "''shared''" and ty = "''passdb''"
         and blob = "''q9mr3faue'' @ [dquote] @ ''asdf12345@chat.example.org'' @ [backslash]"
         and cfg = example_config and crypt = example_crypt
         and jd = json_dumps and fs = empty_fs and rest = "[]"]
    by blast
  have r3: "handle_lookup example_config example_crypt json_dumps empty_fs
       [''shared/passdb/asdf12345@chat.example.org''] = Inl IndexError"
    using c handle_lookup_malformed_raises
      [where keyname = "''shared/passdb/asdf12345@chat.example.org''"
         and blob = "''asdf12345@chat.example.org''" and args = "[''asdf12345@chat.example.org'']"
         and cfg = example_config and crypt = example_crypt
         and jd = json_dumps and fs = empty_fs and rest = "[]"]
    by blast
  have r4: "handle_lookup example_config example_crypt json_dumps empty_fs
       [''priv/passdb/asdf12345@chat.example.org''] = Inr (''F'' @ [newline], empty_fs)"
    using d handle_lookup_malformed_raises
      [where keyname = "''priv/passdb/asdf12345@chat.example.org''"
         and ns = "''priv''" and ty = "''passdb''"
         and blob = "''asdf12345@chat.example.org''" and args = "[''asdf12345@chat.example.org'']"
         and cfg = example_config and crypt = example_crypt
         and jd = json_dumps and fs = empty_fs and rest = "[]"]
    by blast
  from r1 r2 r3 r4 show ?thesis by (intro conjI)
qed

text \<open>
  The claim as stated fails: for a blob that ends in a backslash the method raises
  IndexError instead of returning the line \<^verbatim>\<open>F\<close>.
\<close>

theorem handle_lookup_malformed_counterexample:
  "handle_lookup example_config example_crypt json_dumps empty_fs
     [''shared/userdb/asdf12345@chat.example.org'' @ [backslash]] = Inl IndexError
   \<and> handle_lookup example_config example_crypt json_dumps empty_fs
     [''shared/userdb/asdf12345@chat.example.org'' @ [backslash]]
       \<noteq> Inr (''F'' @ [newline], empty_fs)"
  by (simp add: handle_lookup_def nth_py_def str_split_max_def eval_nat_numeral
        split_and_unescape_eq)

section \<open>Iteration: lemmas\<close>

lemma read_password_Some_iff:
  "distinct (map fst (mailboxes fs)) \<Longrightarrow>
     read_password fs a = Some h \<longleftrightarrow> (a, Some h) \<in> set (mailboxes fs)"
proof -
  assume d: "distinct (map fst (mailboxes fs))"
  have "map_of (mailboxes fs) a = Some (Some h) \<longleftrightarrow> (a, Some h) \<in> set (mailboxes fs)"
    using d by (rule map_of_eq_Some_iff)
  moreover have "read_password fs a = Some h \<longleftrightarrow> map_of (mailboxes fs) a = Some (Some h)"
    by (simp add: read_password_def split: option.splits)
  ultimately show ?thesis by simp
qed

lemma iter_userdb_established:
  assumes "accounts_only fs"
  shows "set (iter_userdb fs) = {a. lookup_userdb cfg fs a \<noteq> []}"
proof -
  from assms have d: "distinct (map fst (mailboxes fs))"
    and w: "\<forall>e \<in> set (mailboxes fs). (CHR ''@'' \<in> set (fst e)) = (snd e \<noteq> None)"
    by (simp_all add: accounts_only_def list_all_iff)
  have "a \<in> set (iter_userdb fs) \<longleftrightarrow> lookup_userdb cfg fs a \<noteq> []" for a
  proof
    assume "a \<in> set (iter_userdb fs)"
    then obtain p where p: "(a, p) \<in> set (mailboxes fs)" and at: "CHR ''@'' \<in> set a"
      by (auto simp add: iter_userdb_def)
    with w obtain h where "p = Some h" by fastforce
    with p d have "read_password fs a = Some h" by (simp add: read_password_Some_iff)
    then show "lookup_userdb cfg fs a \<noteq> []" by (simp add: lookup_userdb_empty_iff)
  next
    assume "lookup_userdb cfg fs a \<noteq> []"
    then obtain h where "read_password fs a = Some h"
      by (auto simp add: lookup_userdb_empty_iff)
    with d have m: "(a, Some h) \<in> set (mailboxes fs)" by (simp add: read_password_Some_iff)
    with w have "CHR ''@'' \<in> set a" by fastforce
    with m show "a \<in> set (iter_userdb fs)" by (force simp add: iter_userdb_def)
  qed
  then show ?thesis by blast
qed

lemma iter_userdb_distinct: "accounts_only fs \<Longrightarrow> distinct (iter_userdb fs)"
  by (simp add: accounts_only_def iter_userdb_def)

lemma set_alist_update: "set (AList.update k v al) \<subseteq> insert (k, v) (set al)"
  by (induction al) auto

lemma accounts_only_set_user_password:
  assumes "accounts_only fs" and "CHR ''@'' \<in> set user"
  shows "accounts_only (set_user_password fs user enc)"
proof -
  from assms(1) have d: "distinct (map fst (mailboxes fs))"
    and w: "\<forall>e \<in> set (mailboxes fs). (CHR ''@'' \<in> set (fst e)) = (snd e \<noteq> None)"
    by (simp_all add: accounts_only_def list_all_iff)
  have "\<forall>e \<in> set (AList.update user (Some enc) (mailboxes fs)).
          (CHR ''@'' \<in> set (fst e)) = (snd e \<noteq> None)"
  proof
    fix e assume "e \<in> set (AList.update user (Some enc) (mailboxes fs))"
    with set_alist_update [of user "Some enc" "mailboxes fs"]
    have "e = (user, Some enc) \<or> e \<in> set (mailboxes fs)" by auto
    then show "(CHR ''@'' \<in> set (fst e)) = (snd e \<noteq> None)"
    proof
      assume "e = (user, Some enc)"
      with assms(2) show ?thesis by simp
    next
      assume "e \<in> set (mailboxes fs)"
      with w show ?thesis by blast
    qed
  qed
  with d show ?thesis
    by (simp add: accounts_only_def list_all_iff set_user_password_def distinct_update)
qed

lemma accounts_only_lookup_passdb:
  assumes "accounts_only fs"
      and "lookup_passdb cfg crypt fs user pw = Inr (res, fs')"
  shows "accounts_only fs'"
proof (cases "lookup_passdb_check cfg fs user pw")
  case (Return r)
  with assms show ?thesis by (simp add: lookup_passdb_check_finish lookup_passdb_finish_def)
next
  case Create
  then have "count_list user (CHR ''@'') = 1"
    by (simp add: lookup_passdb_check_Create is_allowed_to_create_fst)
  then have at: "CHR ''@'' \<in> set user" using count_list_zero [of "CHR ''@''" user] by auto
  from Create assms(2) obtain enc where "fs' = set_user_password fs user enc"
    by (auto simp add: lookup_passdb_check_finish lookup_passdb_finish_def split: sum.splits)
  with assms(1) at show ?thesis by (simp add: accounts_only_set_user_password)
qed

lemma accounts_only_empty_fs: "accounts_only empty_fs"
  by (simp add: accounts_only_def empty_fs_def)


section \<open>Theorems about iteration\<close>

text \<open>
  Claim C8, amended. \<^verbatim>\<open>iter_userdb\<close> lists the entries of the mailbox directory whose
  names contain an at sign, whether or not they hold a password file. In a store where
  these entries are exactly the established accounts (\<open>accounts_only\<close>: every entry
  with an at sign in its name holds a password file, and every entry with a password
  file has an at sign in its name), an iterate request whose third field is
  \<^verbatim>\<open>shared/userdb/\<close> replies with one line \<^verbatim>\<open>Oshared/userdb/<address>\<close>, a tab and a
  newline per established address, each address exactly once, followed by a newline.
  The empty store is such a store, and \<^verbatim>\<open>lookup_passdb\<close> keeps a store such
  (\<open>accounts_only_empty_fs\<close>, \<open>accounts_only_lookup_passdb\<close>).
\<close>

theorem handle_iterate_established:
  assumes "nth_py parts 2 = Inr ''shared/userdb/''"
      and "accounts_only fs"
  shows "handle_iterate fs parts
           = Inr (Some (concat (map found_line (iter_userdb fs)) @ [newline]))
     \<and> distinct (iter_userdb fs)
     \<and> set (iter_userdb fs) = {a. lookup_userdb cfg fs a \<noteq> []}"
  using assms
  by (simp add: handle_iterate_def iter_userdb_distinct iter_userdb_established)

theorem handle_iterate_established_witness:
  "nth_py [''0'', ''0'', ''shared/userdb/''] 2 = Inr ''shared/userdb/''
   \<and> accounts_only one_account_fs
   \<and> handle_iterate one_account_fs [''0'', ''0'', ''shared/userdb/'']
       = Inr (Some (''Oshared/userdb/asdf12345@chat.example.org'' @ [tab, newline, newline]))"
proof -
  have a: "nth_py [''0'', ''0'', ''shared/userdb/''] 2 = Inr ''shared/userdb/''"
    by (simp add: nth_py_def)
  have b: "accounts_only one_account_fs"
    by (simp add: accounts_only_def one_account_fs_def)
  from handle_iterate_established [OF a b] a b show ?thesis
    by (simp add: iter_userdb_def found_line_def one_account_fs_def)
qed

text \<open>
  The claim as stated, for every store, fails where a directory with an at sign in its
  name holds no password file: the address is listed although it is not established.
\<close>

theorem handle_iterate_stray_directory_counterexample:
  "handle_iterate stray_dir_fs [''0'', ''0'', ''shared/userdb/'']
     = Inr (Some (''Oshared/userdb/stray@chat.example.org'' @ [tab, newline, newline]))
   \<and> lookup_userdb example_config stray_dir_fs ''stray@chat.example.org'' = []"
  by (simp add: handle_iterate_def nth_py_def iter_userdb_def found_line_def stray_dir_fs_def
        lookup_userdb_def read_password_def)

end
